theory Spec2Isabelle
  imports Main
begin

section \<open>Images\<close>

text \<open>
  The scripts work on RGBA images through the imaging library. An image is the list of its
  rows, top to bottom, each row the list of its pixels, left to right. All sheets are taken
  to be in RGBA mode already, so that \<open>convert('RGBA')\<close> and the mode conversion of
  \<open>paste\<close> are the identity; PNG files are lossless, so a file holds the image saved to it.
\<close>

type_synonym pixel = "nat \<times> nat \<times> nat \<times> nat"
type_synonym image = "pixel list list"
type_synonym box = "int \<times> int \<times> int \<times> int"

definition transparent :: pixel where
  "transparent = (0, 0, 0, 0)"

definition img_size :: "image \<Rightarrow> nat \<times> nat" where
  "img_size im = ((case im of [] \<Rightarrow> 0 | r # _ \<Rightarrow> length r), length im)"

definition has_size :: "image \<Rightarrow> nat \<Rightarrow> nat \<Rightarrow> bool" where
  "has_size im w h = (length im = h \<and> list_all (\<lambda>r. length r = w) im)"

text \<open>\<open>Image.new('RGBA', (w, h), color)\<close>.\<close>

definition new_image :: "nat \<times> nat \<Rightarrow> pixel \<Rightarrow> image" where
  "new_image sz color = replicate (snd sz) (replicate (fst sz) color)"

text \<open>
  The pixel of an image at integer coordinates, and the zero pixel outside the image: this
  is what a crop copies.
\<close>

definition inside :: "image \<Rightarrow> int \<Rightarrow> int \<Rightarrow> bool" where
  "inside im x y = (0 \<le> x \<and> 0 \<le> y \<and> nat y < length im \<and> nat x < length (im ! nat y))"

definition pixel_or_zero :: "image \<Rightarrow> int \<Rightarrow> int \<Rightarrow> pixel" where
  "pixel_or_zero im x y = (if inside im x y then im ! nat y ! nat x else transparent)"

text \<open>
  \<open>img.crop((x0, y0, x1, y1))\<close>: the result always has size \<open>(x1 - x0, y1 - y0)\<close>; the
  library raises nothing when the box leaves the image, it fills the part of the region
  outside the image with zero pixels. Every call of the scripts has \<open>x1 = x0 + 16\<close> and
  \<open>y1 = y0 + 16\<close>.
\<close>

definition crop :: "image \<Rightarrow> box \<Rightarrow> image" where
  "crop im b = (case b of (x0, y0, x1, y1) \<Rightarrow>
     map (\<lambda>j. map (\<lambda>i. pixel_or_zero im (x0 + int i) (y0 + int j)) [0..<nat (x1 - x0)])
         [0..<nat (y1 - y0)])"

text \<open>
  \<open>dst.paste(src, (ox, oy))\<close> without a mask: the pixels of \<open>dst\<close> covered by \<open>src\<close>
  placed at \<open>(ox, oy)\<close> are replaced, the others are kept, and the size of \<open>dst\<close> does
  not change.
\<close>

definition paste :: "image \<Rightarrow> image \<Rightarrow> int \<times> int \<Rightarrow> image" where
  "paste dst src pos = (case pos of (ox, oy) \<Rightarrow>
     map (\<lambda>j. map (\<lambda>i. if inside src (int i - ox) (int j - oy)
                         then src ! nat (int j - oy) ! nat (int i - ox)
                         else dst ! j ! i)
                   [0..<length (dst ! j)])
         [0..<length dst])"

definition region_in_bounds :: "image \<Rightarrow> box \<Rightarrow> bool" where
  "region_in_bounds im b = (case b of (x0, y0, x1, y1) \<Rightarrow>
     0 \<le> x0 \<and> 0 \<le> y0 \<and> x1 \<le> int (fst (img_size im)) \<and> y1 \<le> int (snd (img_size im)))"

section \<open>Paths and formatting\<close>

text \<open>\<open>os.path.join\<close> of two components, with the POSIX separator.\<close>

definition path_join :: "string \<Rightarrow> string \<Rightarrow> string" where
  "path_join a b =
     (if b \<noteq> [] \<and> hd b = CHR ''/'' then b
      else if a = [] \<or> last a = CHR ''/'' then a @ b
      else a @ ''/'' @ b)"

definition digit_char :: "nat \<Rightarrow> char" where
  "digit_char d = ''0123456789'' ! d"

fun dec :: "nat \<Rightarrow> string" where
  "dec n = (if n < 10 then [digit_char n] else dec (n div 10) @ [digit_char (n mod 10)])"

declare dec.simps [simp del]

text \<open>The format \<open>{idx:02d}\<close> of a non-negative integer.\<close>

definition fmt_02d :: "nat \<Rightarrow> string" where
  "fmt_02d n = replicate (2 - length (dec n)) CHR ''0'' @ dec n"

section \<open>The world of a run\<close>

text \<open>
  A run reads and writes image files and prints. The world holds the image files by path,
  the list of the files saved so far, in order, and the lines printed so far. Each
  constructor of \<open>message\<close> stands for one print statement of the scripts (or a run of
  prints of fixed text). Directories are not part of the state: \<open>os.makedirs\<close> is taken
  to succeed.
\<close>

datatype message =
    Banner
  | SourceNotFound string
  | Instructions
  | LoadingSheet string
  | ImageSize "nat \<times> nat"
  | LoadedSheet "nat \<times> nat"
  | Extracting string
  | SavedStrip string
  | StripSize "nat \<times> nat"
  | FilesSavedTo string
  | SkippingExcluded "int \<times> int"
  | Collected nat
  | UsingFirst16
  | WarningOnly nat
  | SavedIndividual string
  | ExtractionComplete
  | InputNotFound string
  | Processing string "nat \<times> nat"
  | ExtractingTo string
  | SavedVariants nat
  | SplitBanner
  | SplitComplete
  | BlankLine

datatype py_error = FileNotFoundError | IndexError

record world =
  files :: "string \<rightharpoonup> image"
  saved :: "(string \<times> image) list"
  stdout :: "message list"

definition say :: "message \<Rightarrow> world \<Rightarrow> world" where
  "say m w = w\<lparr>stdout := stdout w @ [m]\<rparr>"

definition save :: "string \<Rightarrow> image \<Rightarrow> world \<Rightarrow> world" where
  "save path im w = w\<lparr>files := (files w)(path \<mapsto> im), saved := saved w @ [(path, im)]\<rparr>"

text \<open>
  The exit status of the interpreter: 0 when the script runs to its end, 1 when an
  exception is not caught.
\<close>

definition exit_status :: "(py_error + unit) \<Rightarrow> nat" where
  "exit_status r = (case r of Inr _ \<Rightarrow> 0 | Inl _ \<Rightarrow> 1)"

section \<open>Shared constants\<close>

definition TILE_SIZE :: int where
  "TILE_SIZE = 16"

definition MARGIN :: int where
  "MARGIN = 1"

definition TILE_STEP :: int where
  "TILE_STEP = TILE_SIZE + MARGIN"

definition source_path :: string where
  "source_path = ''roguelikeSheet_transparent.png''"

definition output_path :: string where
  "output_path = ''public/assets/tilesets''"

section \<open>extract\_tiles.py\<close>

record tile_set =
  coords :: "int \<times> int"
  layout :: string

definition TILE_SETS :: "(string \<times> tile_set) list" where
  "TILE_SETS =
     [(''grass'', \<lparr>coords = (289, 425), layout = ''grid''\<rparr>),
      (''dirt'', \<lparr>coords = (187, 425), layout = ''grid''\<rparr>),
      (''water'', \<lparr>coords = (255, 425), layout = ''grid''\<rparr>),
      (''stone'', \<lparr>coords = (425, 425), layout = ''grid''\<rparr>)]"

text \<open>The box cropped for index \<open>idx\<close> of a 4 by 4 grid that starts at \<open>(start_x, start_y)\<close>.\<close>

definition tile_box :: "int \<times> int \<Rightarrow> nat \<Rightarrow> box" where
  "tile_box start idx =
     (let row = int idx div 4;
          col = int idx mod 4;
          tile_x = fst start + col * TILE_STEP;
          tile_y = snd start + row * TILE_STEP
      in (tile_x, tile_y, tile_x + TILE_SIZE, tile_y + TILE_SIZE))"

text \<open>The body of the loop over \<open>idx\<close>: crop the tile, paste it into the row image.\<close>

definition grid_step :: "image \<Rightarrow> int \<times> int \<Rightarrow> nat \<Rightarrow> image \<Rightarrow> image" where
  "grid_step img start idx row_image =
     (let tile = crop img (tile_box start idx)
      in paste row_image tile (int idx * TILE_SIZE, 0))"

definition build_row :: "image \<Rightarrow> int \<times> int \<Rightarrow> image" where
  "build_row img start =
     fold (grid_step img start) [0..<16] (new_image (nat (16 * TILE_SIZE), nat TILE_SIZE) transparent)"

text \<open>The body of the loop over the tile sets.\<close>

definition et_tileset :: "image \<Rightarrow> string \<Rightarrow> string \<times> tile_set \<Rightarrow> world \<Rightarrow> world" where
  "et_tileset img output_dir entry w =
     (case entry of (name, config) \<Rightarrow>
        (let w1 = say (Extracting name) w in
         if layout config = ''grid'' then
           (let row_image = build_row img (coords config);
                out = path_join output_dir (name @ ''.png'');
                w2 = save out row_image w1;
                w3 = say (SavedStrip out) w2
            in say (StripSize (img_size row_image)) w3)
         else w1))"

text \<open>
  \<open>extract_tileset\<close> of extract\_tiles.py, with the table of tile sets as a parameter.
  \<open>Image.open\<close> raises when the file is missing.
\<close>

definition et_extract_tileset_with ::
  "(string \<times> tile_set) list \<Rightarrow> string \<Rightarrow> string \<Rightarrow> world \<Rightarrow> (py_error + unit) \<times> world" where
  "et_extract_tileset_with sets source_image_path output_dir w =
     (case files w source_image_path of
        None \<Rightarrow> (Inl FileNotFoundError, w)
      | Some img \<Rightarrow>
          (let w1 = say (LoadingSheet source_image_path) w;
               w2 = say (ImageSize (img_size img)) w1;
               w3 = fold (et_tileset img output_dir) sets w2;
               w4 = say ExtractionComplete w3
           in (Inr (), say (FilesSavedTo output_dir) w4)))"

definition et_extract_tileset :: "string \<Rightarrow> string \<Rightarrow> world \<Rightarrow> (py_error + unit) \<times> world" where
  "et_extract_tileset = et_extract_tileset_with TILE_SETS"

text \<open>The script itself: it checks that the source exists before it extracts.\<close>

definition et_main :: "world \<Rightarrow> (py_error + unit) \<times> world" where
  "et_main w =
     (let w1 = say Banner w in
      if files w1 source_path = None then
        (Inr (), say Instructions (say (SourceNotFound source_path) w1))
      else et_extract_tileset source_path output_path w1)"

section \<open>extract\_tiles\_correct.py\<close>

text \<open>
  Both extraction scripts name their function \<open>extract_tileset\<close>; the one of
  extract\_tiles.py is prefixed \<open>et\<close> here and the one of extract\_tiles\_correct.py
  \<open>etc\<close>. The tables \<open>TILE_SETS\<close>, \<open>TILESETS\<close> are module constants; the functions take
  them as a parameter, and the scripts pass the constants.
\<close>

record tileset_def =
  start :: "int \<times> int"
  grid :: "int \<times> int"
  exclude :: "(int \<times> int) list"

definition TILESETS :: "(string \<times> tileset_def) list" where
  "TILESETS =
     [(''water'', \<lparr>start = (1, 1), grid = (5, 6), exclude = []\<rparr>),
      (''grass'', \<lparr>start = (1, 7), grid = (5, 12), exclude = []\<rparr>),
      (''dirt'', \<lparr>start = (6, 8), grid = (5, 6), exclude = []\<rparr>),
      (''stone'', \<lparr>start = (6, 13), grid = (5, 6), exclude = []\<rparr>)]"

text \<open>The body of the inner loop: skip an excluded cell, otherwise crop and append.\<close>

definition collect_cell ::
  "image \<Rightarrow> tileset_def \<Rightarrow> nat \<Rightarrow> nat \<Rightarrow> image list \<times> world \<Rightarrow> image list \<times> world" where
  "collect_cell img config row col st =
     (case st of (tiles, w) \<Rightarrow>
        (let tile_col = fst (start config) + int col;
             tile_row = snd (start config) + int row
         in if (tile_col, tile_row) \<in> set (exclude config) then
              (tiles, say (SkippingExcluded (tile_col, tile_row)) w)
            else
              (let x = tile_col * TILE_STEP;
                   y = tile_row * TILE_STEP;
                   tile_img = crop img (x, y, x + TILE_SIZE, y + TILE_SIZE)
               in (tiles @ [tile_img], w))))"

definition collect_tiles :: "image \<Rightarrow> tileset_def \<Rightarrow> world \<Rightarrow> image list \<times> world" where
  "collect_tiles img config w =
     (let cols = nat (fst (grid config));
          rows = nat (snd (grid config))
      in fold (\<lambda>row. fold (collect_cell img config row) [0..<cols]) [0..<rows] ([], w))"

definition tile_path :: "string \<Rightarrow> string \<Rightarrow> nat \<Rightarrow> string" where
  "tile_path tileset_dir name idx = path_join tileset_dir (name @ ''_'' @ fmt_02d idx @ ''.png'')"

text \<open>
  The loop that fills the remaining slots: each iteration reads \<open>tiles[0]\<close>, which raises
  \<open>IndexError\<close> on the empty list.
\<close>

fun pad_loop ::
  "image list \<Rightarrow> string \<Rightarrow> string \<Rightarrow> nat list \<Rightarrow> world \<Rightarrow> (py_error + unit) \<times> world" where
  "pad_loop tiles tileset_dir name [] w = (Inr (), w)"
| "pad_loop tiles tileset_dir name (idx # rest) w =
     (case tiles of
        [] \<Rightarrow> (Inl IndexError, w)
      | first # _ \<Rightarrow> pad_loop tiles tileset_dir name rest (save (tile_path tileset_dir name idx) first w))"

definition save_tiles :: "string \<Rightarrow> string \<Rightarrow> image list \<Rightarrow> world \<Rightarrow> world" where
  "save_tiles tileset_dir name tiles w =
     fold (\<lambda>(idx, tile). save (tile_path tileset_dir name idx) tile) (enumerate 0 tiles) w"

text \<open>The body of the loop over the tile sets.\<close>

definition etc_tileset ::
  "image \<Rightarrow> string \<Rightarrow> string \<times> tileset_def \<Rightarrow> world \<Rightarrow> (py_error + unit) \<times> world" where
  "etc_tileset img output_dir entry w =
     (case entry of (name, config) \<Rightarrow>
        (let w1 = say (Extracting name) w;
             (collected, w2) = collect_tiles img config w1;
             w3 = say (Collected (length collected)) w2;
             (tiles, w4) =
               (if length collected \<ge> 16 then (take 16 collected, say UsingFirst16 w3)
                else (collected, say (WarningOnly (length collected)) w3));
             tileset_dir = path_join output_dir name;
             w5 = save_tiles tileset_dir name tiles w4;
             (r, w6) =
               (if length tiles < 16 then pad_loop tiles tileset_dir name [length tiles..<16] w5
                else (Inr (), w5))
         in case r of
              Inl e \<Rightarrow> (Inl e, w6)
            | Inr _ \<Rightarrow> (Inr (), say BlankLine (say (SavedIndividual tileset_dir) w6))))"

text \<open>The loop over the tile sets: an exception raised in the body leaves the loop.\<close>

fun etc_loop ::
  "image \<Rightarrow> string \<Rightarrow> (string \<times> tileset_def) list \<Rightarrow> world \<Rightarrow> (py_error + unit) \<times> world" where
  "etc_loop img output_dir [] w = (Inr (), w)"
| "etc_loop img output_dir (entry # rest) w =
     (case etc_tileset img output_dir entry w of
        (Inl e, w') \<Rightarrow> (Inl e, w')
      | (Inr _, w') \<Rightarrow> etc_loop img output_dir rest w')"

definition etc_extract_tileset_with ::
  "(string \<times> tileset_def) list \<Rightarrow> string \<Rightarrow> string \<Rightarrow> world \<Rightarrow> (py_error + unit) \<times> world" where
  "etc_extract_tileset_with sets source output_dir w =
     (case files w source of
        None \<Rightarrow> (Inr (), say (SourceNotFound source) w)
      | Some img \<Rightarrow>
          (let w1 = say BlankLine (say (LoadedSheet (img_size img)) w)
           in case etc_loop img output_dir sets w1 of
                (Inl e, w2) \<Rightarrow> (Inl e, w2)
              | (Inr _, w2) \<Rightarrow> (Inr (), say ExtractionComplete w2)))"

definition etc_extract_tileset :: "string \<Rightarrow> string \<Rightarrow> world \<Rightarrow> (py_error + unit) \<times> world" where
  "etc_extract_tileset = etc_extract_tileset_with TILESETS"

definition etc_main :: "world \<Rightarrow> (py_error + unit) \<times> world" where
  "etc_main w = etc_extract_tileset source_path output_path w"

section \<open>split\_tiles.py\<close>

definition VARIANTS :: nat where
  "VARIANTS = 16"


text \<open>The body of the loop over the variants.\<close>

definition split_variant :: "image \<Rightarrow> string \<Rightarrow> string \<Rightarrow> nat \<Rightarrow> world \<Rightarrow> world" where
  "split_variant img tileset_output_dir tileset_name variant w =
     (let x = int variant * TILE_SIZE;
          y = 0;
          tile = crop img (x, y, x + TILE_SIZE, y + TILE_SIZE);
          out = path_join tileset_output_dir (tileset_name @ ''_'' @ fmt_02d variant @ ''.png'');
          w1 = save out tile w
      in if variant = 0 then say (ExtractingTo tileset_output_dir) w1 else w1)"

definition split_tileset :: "string \<Rightarrow> string \<Rightarrow> string \<Rightarrow> world \<Rightarrow> world" where
  "split_tileset tileset_name input_dir output_dir w =
     (let input_path = path_join input_dir (tileset_name @ ''.png'') in
      case files w input_path of
        None \<Rightarrow> say (InputNotFound input_path) w
      | Some img \<Rightarrow>
          (let w1 = say (Processing tileset_name (img_size img)) w;
               tileset_output_dir = path_join output_dir tileset_name;
               w2 = fold (split_variant img tileset_output_dir tileset_name) [0..<VARIANTS] w1
           in say (SavedVariants VARIANTS) w2))"



section \<open>Concrete inputs\<close>

text \<open>A sheet of 2 by 2 pixels and a world that holds it as the source file and nothing else.\<close>

definition small_sheet :: image where
  "small_sheet = [[(1, 2, 3, 255), (4, 5, 6, 255)], [(7, 8, 9, 255), (10, 11, 12, 0)]]"

definition small_world :: world where
  "small_world = \<lparr>files = [source_path \<mapsto> small_sheet], saved = [], stdout = []\<rparr>"

definition empty_world :: world where
  "empty_world = \<lparr>files = Map.empty, saved = [], stdout = []\<rparr>"

definition no_cells :: tileset_def where
  "no_cells = \<lparr>start = (0, 0), grid = (0, 0), exclude = []\<rparr>"

definition one_cell :: tileset_def where
  "one_cell = \<lparr>start = (0, 0), grid = (1, 1), exclude = []\<rparr>"

text \<open>
  The box cropped by extract\_tiles\_correct.py for the cell in row \<open>row\<close> and column
  \<open>col\<close> of a tile set, and the grids whose cropped regions all lie inside a sheet.
\<close>

definition cell_box :: "tileset_def \<Rightarrow> nat \<Rightarrow> nat \<Rightarrow> box" where
  "cell_box config row col =
     (let tile_col = fst (start config) + int col;
          tile_row = snd (start config) + int row;
          x = tile_col * TILE_STEP;
          y = tile_row * TILE_STEP
      in (x, y, x + TILE_SIZE, y + TILE_SIZE))"

definition cells_in_bounds :: "image \<Rightarrow> tileset_def \<Rightarrow> bool" where
  "cells_in_bounds img config =
     list_all (\<lambda>(row, col). region_in_bounds img (cell_box config row col))
       (List.product [0..<nat (snd (grid config))] [0..<nat (fst (grid config))])"

definition grid_in_bounds :: "image \<Rightarrow> int \<times> int \<Rightarrow> bool" where
  "grid_in_bounds img origin = list_all (\<lambda>idx. region_in_bounds img (tile_box origin idx)) [0..<16]"

definition big_sheet :: image where
  "big_sheet = new_image (512, 512) (9, 9, 9, 255)"

definition big_world :: world where
  "big_world = \<lparr>files = [source_path \<mapsto> big_sheet], saved = [], stdout = []\<rparr>"

definition water_def :: tileset_def where
  "water_def = \<lparr>start = (1, 1), grid = (5, 6), exclude = []\<rparr>"

definition grid_4x4 :: tileset_def where
  "grid_4x4 = \<lparr>start = (0, 0), grid = (4, 4), exclude = []\<rparr>"

definition strip_world :: world where
  "strip_world = \<lparr>files = [''public/assets/tilesets/water.png'' \<mapsto> big_sheet], saved = [], stdout = []\<rparr>"

definition corner_sets :: "(string \<times> tile_set) list" where
  "corner_sets = [(''corner'', \<lparr>coords = (0, 0), layout = ''grid''\<rparr>)]"

section \<open>Facts about crops, the world and the collection loop\<close>

lemma has_size_crop:
  "has_size (crop im (x0, y0, x1, y1)) (nat (x1 - x0)) (nat (y1 - y0))"
  by (simp add: has_size_def crop_def list_all_iff)

lemma has_size_crop_tile:
  "has_size (crop im (x, y, x + TILE_SIZE, y + TILE_SIZE)) 16 16"
  using has_size_crop [of im x y "x + TILE_SIZE" "y + TILE_SIZE"] by (simp add: TILE_SIZE_def)

lemma crop_nth:
  "j < nat (y1 - y0) \<Longrightarrow> i < nat (x1 - x0) \<Longrightarrow>
   crop im (x0, y0, x1, y1) ! j ! i = pixel_or_zero im (x0 + int i) (y0 + int j)"
  by (simp add: crop_def)

lemma saved_say [simp]: "saved (say m w) = saved w"
  by (simp add: say_def)

lemma files_say [simp]: "files (say m w) = files w"
  by (simp add: say_def)

lemma stdout_say [simp]: "stdout (say m w) = stdout w @ [m]"
  by (simp add: say_def)

lemma saved_save [simp]: "saved (save p im w) = saved w @ [(p, im)]"
  by (simp add: save_def)

lemma files_save [simp]: "files (save p im w) = (files w)(p \<mapsto> im)"
  by (simp add: save_def)

lemma stdout_save [simp]: "stdout (save p im w) = stdout w"
  by (simp add: save_def)

lemma fst_collect_cell:
  "fst (collect_cell img c row col st) =
     fst st @ (if (fst (start c) + int col, snd (start c) + int row) \<in> set (exclude c) then []
               else [crop img ((fst (start c) + int col) * TILE_STEP, (snd (start c) + int row) * TILE_STEP,
                               (fst (start c) + int col) * TILE_STEP + TILE_SIZE,
                               (snd (start c) + int row) * TILE_STEP + TILE_SIZE)])"
  by (cases st) (simp add: collect_cell_def Let_def)

lemma fst_fold_collect_cell:
  "fst (fold (collect_cell img c row) cs st) =
     fst st @ map (\<lambda>col. crop img ((fst (start c) + int col) * TILE_STEP, (snd (start c) + int row) * TILE_STEP,
                               (fst (start c) + int col) * TILE_STEP + TILE_SIZE,
                               (snd (start c) + int row) * TILE_STEP + TILE_SIZE))
                  (filter (\<lambda>col. (fst (start c) + int col, snd (start c) + int row) \<notin> set (exclude c)) cs)"
  by (induction cs arbitrary: st) (simp_all add: fst_collect_cell)

lemma fst_fold_rows:
  "fst (fold (\<lambda>row. fold (collect_cell img c row) cs) rs st) =
     fst st @ map (\<lambda>(row, col). crop img ((fst (start c) + int col) * TILE_STEP, (snd (start c) + int row) * TILE_STEP,
                               (fst (start c) + int col) * TILE_STEP + TILE_SIZE,
                               (snd (start c) + int row) * TILE_STEP + TILE_SIZE))
                  (filter (\<lambda>(row, col). (fst (start c) + int col, snd (start c) + int row) \<notin> set (exclude c))
                     (List.product rs cs))"
  by (induction rs arbitrary: st) (simp_all add: fst_fold_collect_cell filter_map comp_def)

lemma fst_collect_tiles:
  "fst (collect_tiles img c w) =
     map (\<lambda>(row, col). crop img ((fst (start c) + int col) * TILE_STEP, (snd (start c) + int row) * TILE_STEP,
                               (fst (start c) + int col) * TILE_STEP + TILE_SIZE,
                               (snd (start c) + int row) * TILE_STEP + TILE_SIZE))
         (filter (\<lambda>(row, col). (fst (start c) + int col, snd (start c) + int row) \<notin> set (exclude c))
            (List.product [0..<nat (snd (grid c))] [0..<nat (fst (grid c))]))"
  by (simp add: collect_tiles_def Let_def fst_fold_rows)

lemma tile_box_grid:
  "map (tile_box (sx, sy)) [0..<16] =
     map (\<lambda>(row, col). (sx + int col * 17, sy + int row * 17, sx + int col * 17 + 16, sy + int row * 17 + 16))
       (List.product [0..<4] [0..<4])"
  by (simp add: tile_box_def TILE_STEP_def TILE_SIZE_def MARGIN_def upt_rec [of _ "numeral _"] Let_def)

lemma collect_cell_world:
  "saved (snd (collect_cell img c row col st)) = saved (snd st) \<and>
   files (snd (collect_cell img c row col st)) = files (snd st)"
  by (cases st) (simp add: collect_cell_def Let_def)

lemma fold_collect_cell_world:
  "saved (snd (fold (collect_cell img c row) cs st)) = saved (snd st) \<and>
   files (snd (fold (collect_cell img c row) cs st)) = files (snd st)"
  by (induction cs arbitrary: st) (simp_all add: collect_cell_world)

lemma fold_rows_world:
  "saved (snd (fold (\<lambda>row. fold (collect_cell img c row) cs) rs st)) = saved (snd st) \<and>
   files (snd (fold (\<lambda>row. fold (collect_cell img c row) cs) rs st)) = files (snd st)"
  by (induction rs arbitrary: st) (simp_all add: fold_collect_cell_world)

lemma collect_tiles_world:
  "saved (snd (collect_tiles img c w)) = saved w \<and> files (snd (collect_tiles img c w)) = files w"
  by (simp add: collect_tiles_def Let_def fold_rows_world)

lemma fst_collect_tiles_indep:
  "fst (collect_tiles img c w) = fst (collect_tiles img c w')"
  by (simp add: fst_collect_tiles)

lemma saved_fold_save_enum:
  "saved (fold (\<lambda>(idx, tile). save (tile_path d name idx) tile) (enumerate n tiles) w) =
     saved w @ map (\<lambda>(idx, tile). (tile_path d name idx, tile)) (enumerate n tiles)"
  by (induction tiles arbitrary: n w) simp_all

lemma saved_save_tiles:
  "saved (save_tiles d name tiles w) =
     saved w @ map (\<lambda>idx. (tile_path d name idx, tiles ! idx)) [0..<length tiles]"
proof -
  have "map (\<lambda>(idx, tile). (tile_path d name idx, tile)) (enumerate 0 tiles) =
        map (\<lambda>idx. (tile_path d name idx, tiles ! idx)) [0..<length tiles]"
    by (rule nth_equalityI) (simp_all add: nth_enumerate_eq)
  then show ?thesis
    by (simp add: save_tiles_def saved_fold_save_enum)
qed

lemma pad_loop_empty:
  "idxs \<noteq> [] \<Longrightarrow> pad_loop [] d name idxs w = (Inl IndexError, w)"
  by (cases idxs) simp_all

lemma pad_loop_nonempty:
  "tiles \<noteq> [] \<Longrightarrow>
   fst (pad_loop tiles d name idxs w) = Inr () \<and>
   saved (snd (pad_loop tiles d name idxs w)) =
     saved w @ map (\<lambda>idx. (tile_path d name idx, tiles ! 0)) idxs"
  by (induction idxs arbitrary: w) (auto split: list.splits)

lemma map_upt_split:
  "k \<le> n \<Longrightarrow> map f [0..<k] @ map g [k..<n] = map (\<lambda>i. if i < k then f i else g i) [0..<n]"
  by (rule nth_equalityI) (auto simp: nth_append)

lemma etc_tileset_empty:
  assumes "fst (collect_tiles img c w0) = []"
  shows "fst (etc_tileset img out (name, c) w) = Inl IndexError \<and>
         saved (snd (etc_tileset img out (name, c) w)) = saved w"
proof -
  obtain collected w2 where cw: "collect_tiles img c (say (Extracting name) w) = (collected, w2)"
    by (cases "collect_tiles img c (say (Extracting name) w)")
  have "collected = fst (collect_tiles img c w0)"
    using cw fst_collect_tiles_indep [of img c "say (Extracting name) w" w0] by simp
  with assms have e: "collected = []" by simp
  have s2: "saved w2 = saved w"
    using cw collect_tiles_world [of img c "say (Extracting name) w"] by simp
  show ?thesis
    by (simp add: etc_tileset_def Let_def cw e s2 save_tiles_def upt_rec [of 0 16])
qed

lemma etc_tileset_nonempty:
  assumes "fst (collect_tiles img c w0) \<noteq> []"
  shows "fst (etc_tileset img out (name, c) w) = Inr () \<and>
         saved (snd (etc_tileset img out (name, c) w)) =
           saved w @ map (\<lambda>idx. (tile_path (path_join out name) name idx,
                                 if idx < length (fst (collect_tiles img c w0))
                                 then fst (collect_tiles img c w0) ! idx
                                 else fst (collect_tiles img c w0) ! 0)) [0..<16]"
proof -
  obtain collected w2 where cw: "collect_tiles img c (say (Extracting name) w) = (collected, w2)"
    by (cases "collect_tiles img c (say (Extracting name) w)")
  have c: "fst (collect_tiles img c w0) = collected"
    using cw fst_collect_tiles_indep [of img c "say (Extracting name) w" w0] by simp
  with assms have ne: "collected \<noteq> []" by simp
  have s2: "saved w2 = saved w"
    using cw collect_tiles_world [of img c "say (Extracting name) w"] by simp
  show ?thesis
    unfolding c
  proof (cases "16 \<le> length collected")
    case True
    then have "map (\<lambda>idx. (tile_path (path_join out name) name idx, take 16 collected ! idx)) [0..<16] =
               map (\<lambda>idx. (tile_path (path_join out name) name idx,
                     if idx < length collected then collected ! idx else collected ! 0)) [0..<16]"
      by (intro map_cong) auto
    with True show "fst (etc_tileset img out (name, c) w) = Inr () \<and>
         saved (snd (etc_tileset img out (name, c) w)) =
           saved w @ map (\<lambda>idx. (tile_path (path_join out name) name idx,
                                 if idx < length collected then collected ! idx else collected ! 0)) [0..<16]"
      by (simp add: etc_tileset_def Let_def cw s2 saved_save_tiles min_def)
  next
    case False
    then have k: "length collected \<le> 16" by simp
    define w5 where "w5 = save_tiles (path_join out name) name collected
       (say (WarningOnly (length collected)) (say (Collected (length collected)) w2))"
    obtain r w6 where pl: "pad_loop collected (path_join out name) name [length collected..<16] w5 = (r, w6)"
      by (cases "pad_loop collected (path_join out name) name [length collected..<16] w5")
    have r: "r = Inr ()" and s6: "saved w6 = saved w5 @
        map (\<lambda>idx. (tile_path (path_join out name) name idx, collected ! 0)) [length collected..<16]"
      using pad_loop_nonempty [OF ne, of "path_join out name" name "[length collected..<16]" w5] pl
      by simp_all
    have s5: "saved w5 = saved w @
        map (\<lambda>idx. (tile_path (path_join out name) name idx, collected ! idx)) [0..<length collected]"
      by (simp add: w5_def saved_save_tiles s2)
    have res: "etc_tileset img out (name, c) w =
        (Inr (), say BlankLine (say (SavedIndividual (path_join out name)) w6))"
      using False pl r by (simp add: etc_tileset_def Let_def cw w5_def)
    show "fst (etc_tileset img out (name, c) w) = Inr () \<and>
         saved (snd (etc_tileset img out (name, c) w)) =
           saved w @ map (\<lambda>idx. (tile_path (path_join out name) name idx,
                                 if idx < length collected then collected ! idx else collected ! 0)) [0..<16]"
      using map_upt_split [OF k, of "\<lambda>idx. (tile_path (path_join out name) name idx, collected ! idx)"
           "\<lambda>idx. (tile_path (path_join out name) name idx, collected ! 0)"]
      by (simp add: res s6 s5 if_distrib [of "Pair _"] cong: if_cong)
  qed
qed

lemma etc_loop_result:
  "fst (etc_loop img out sets w) =
     (if list_all (\<lambda>(name, c). fst (collect_tiles img c w0) \<noteq> []) sets then Inr () else Inl IndexError)"
proof (induction sets arbitrary: w)
  case Nil
  then show ?case by simp
next
  case (Cons entry rest)
  obtain name c where e: "entry = (name, c)" by (cases entry)
  obtain r w' where t: "etc_tileset img out (name, c) w = (r, w')"
    by (cases "etc_tileset img out (name, c) w")
  show ?case
  proof (cases "fst (collect_tiles img c w0) = []")
    case True
    with etc_tileset_empty [OF True, of out name w] t show ?thesis
      by (simp add: e)
  next
    case False
    with etc_tileset_nonempty [OF False, of out name w] t Cons.IH [of w'] show ?thesis
      by (simp add: e)
  qed
qed

lemma etc_loop_saved:
  "saved (snd (etc_loop img out sets w)) =
     saved w @ concat (map (\<lambda>(name, c). map (\<lambda>idx. (tile_path (path_join out name) name idx,
                                 if idx < length (fst (collect_tiles img c w0))
                                 then fst (collect_tiles img c w0) ! idx
                                 else fst (collect_tiles img c w0) ! 0)) [0..<16])
                       (takeWhile (\<lambda>(name, c). fst (collect_tiles img c w0) \<noteq> []) sets))"
proof (induction sets arbitrary: w)
  case Nil
  then show ?case by simp
next
  case (Cons entry rest)
  obtain name c where e: "entry = (name, c)" by (cases entry)
  obtain r w' where t: "etc_tileset img out (name, c) w = (r, w')"
    by (cases "etc_tileset img out (name, c) w")
  show ?case
  proof (cases "fst (collect_tiles img c w0) = []")
    case True
    with etc_tileset_empty [OF True, of out name w] t show ?thesis
      by (simp add: e)
  next
    case False
    with etc_tileset_nonempty [OF False, of out name w] t Cons.IH [of w'] show ?thesis
      by (simp add: e)
  qed
qed

lemma etc_extract_result:
  assumes "files w src = Some img"
  shows "fst (etc_extract_tileset_with sets src out w) =
     (if list_all (\<lambda>(name, c). fst (collect_tiles img c w0) \<noteq> []) sets then Inr () else Inl IndexError)"
proof -
  obtain r w2 where l: "etc_loop img out sets (say BlankLine (say (LoadedSheet (img_size img)) w)) = (r, w2)"
    by (cases "etc_loop img out sets (say BlankLine (say (LoadedSheet (img_size img)) w))")
  have "fst (etc_extract_tileset_with sets src out w) = r"
    using assms l by (cases r) (simp_all add: etc_extract_tileset_with_def Let_def)
  with etc_loop_result [of img out sets "say BlankLine (say (LoadedSheet (img_size img)) w)" w0] l
  show ?thesis by simp
qed

lemma etc_extract_saved:
  assumes "files w src = Some img"
  shows "saved (snd (etc_extract_tileset_with sets src out w)) =
     saved w @ concat (map (\<lambda>(name, c). map (\<lambda>idx. (tile_path (path_join out name) name idx,
                                 if idx < length (fst (collect_tiles img c w0))
                                 then fst (collect_tiles img c w0) ! idx
                                 else fst (collect_tiles img c w0) ! 0)) [0..<16])
                       (takeWhile (\<lambda>(name, c). fst (collect_tiles img c w0) \<noteq> []) sets))"
proof -
  obtain r w2 where l: "etc_loop img out sets (say BlankLine (say (LoadedSheet (img_size img)) w)) = (r, w2)"
    by (cases "etc_loop img out sets (say BlankLine (say (LoadedSheet (img_size img)) w))")
  have "saved (snd (etc_extract_tileset_with sets src out w)) = saved w2"
    using assms l by (cases r) (simp_all add: etc_extract_tileset_with_def Let_def)
  with etc_loop_saved [of img out sets "say BlankLine (say (LoadedSheet (img_size img)) w)" w0] l
  show ?thesis by simp
qed

lemma etc_extract_missing:
  "files w src = None \<Longrightarrow>
   etc_extract_tileset_with sets src out w = (Inr (), say (SourceNotFound src) w)"
  by (simp add: etc_extract_tileset_with_def)

lemma collect_tiles_empty_iff:
  "(fst (collect_tiles img c w) = []) =
     (\<forall>row < nat (snd (grid c)). \<forall>col < nat (fst (grid c)).
        (fst (start c) + int col, snd (start c) + int row) \<in> set (exclude c))"
  by (auto simp: fst_collect_tiles filter_empty_conv)

lemma saved_split_variant:
  "saved (split_variant img d name v w) =
     saved w @ [(tile_path d name v, crop img (int v * TILE_SIZE, 0, int v * TILE_SIZE + TILE_SIZE, 0 + TILE_SIZE))]"
  by (simp add: split_variant_def Let_def tile_path_def)

lemma saved_fold_split_variant:
  "saved (fold (split_variant img d name) vs w) =
     saved w @ map (\<lambda>v. (tile_path d name v,
                          crop img (int v * TILE_SIZE, 0, int v * TILE_SIZE + TILE_SIZE, 0 + TILE_SIZE))) vs"
  by (induction vs arbitrary: w) (simp_all add: saved_split_variant)

lemma saved_split_tileset:
  "saved (split_tileset name inp out w) =
     saved w @ (case files w (path_join inp (name @ ''.png'')) of
                  None \<Rightarrow> []
                | Some img \<Rightarrow>
                    map (\<lambda>v. (tile_path (path_join out name) name v,
                          crop img (int v * TILE_SIZE, 0, int v * TILE_SIZE + TILE_SIZE, 0 + TILE_SIZE)))
                      [0..<16])"
  by (simp add: split_tileset_def Let_def saved_fold_split_variant VARIANTS_def split: option.splits)

lemma fmt_02d_16:
  "map fmt_02d [0..<16] =
     [''00'', ''01'', ''02'', ''03'', ''04'', ''05'', ''06'', ''07'',
      ''08'', ''09'', ''10'', ''11'', ''12'', ''13'', ''14'', ''15'']"
  by code_simp

lemma path_join_suffix_inj:
  "path_join d (name @ ''_'' @ x @ ''.png'') = path_join d (name @ ''_'' @ y @ ''.png'') \<Longrightarrow> x = y"
  by (cases name) (auto simp: path_join_def split: if_splits)

lemma tile_path_inj: "tile_path d name i = tile_path d name j \<Longrightarrow> fmt_02d i = fmt_02d j"
  unfolding tile_path_def by (rule path_join_suffix_inj)

lemma distinct_fmt_02d_16: "distinct (map fmt_02d [0..<16])"
  unfolding fmt_02d_16 by simp

lemma distinct_tile_paths: "distinct (map (tile_path d name) [0..<16])"
proof -
  have "inj (\<lambda>s. path_join d (name @ ''_'' @ s @ ''.png''))"
    by (rule injI) (rule path_join_suffix_inj)
  then have "inj_on (\<lambda>s. path_join d (name @ ''_'' @ s @ ''.png'')) (set (map fmt_02d [0..<16]))"
    by (rule inj_on_subset) blast
  with distinct_fmt_02d_16
  have "distinct (map (\<lambda>s. path_join d (name @ ''_'' @ s @ ''.png'')) (map fmt_02d [0..<16]))"
    by (rule distinct_map [THEN iffD2, OF conjI])
  then show ?thesis
    by (simp add: comp_def tile_path_def [abs_def])
qed

lemma has_size_collected:
  "list_all (\<lambda>t. has_size t 16 16) (fst (collect_tiles img c w))"
  by (simp add: fst_collect_tiles list_all_iff has_size_crop_tile split_def)

lemma has_size_tile_box: "has_size (crop img (tile_box origin idx)) 16 16"
  by (simp add: tile_box_def Let_def has_size_crop_tile)

lemma nth_collected_has_size:
  "idx < length (fst (collect_tiles img c w)) \<Longrightarrow> has_size (fst (collect_tiles img c w) ! idx) 16 16"
  using has_size_collected [of img c w] by (simp add: list_all_length)

lemma etc_extract_saved_sizes:
  assumes "list_all (\<lambda>(p, t). has_size t 16 16) (saved w)"
  shows "list_all (\<lambda>(p, t). has_size t 16 16) (saved (snd (etc_extract_tileset_with sets src out w)))"
proof (cases "files w src")
  case None
  then show ?thesis using assms by (simp add: etc_extract_missing)
next
  case (Some img)
  have "has_size (if idx < length (fst (collect_tiles img c w)) then fst (collect_tiles img c w) ! idx
                  else fst (collect_tiles img c w) ! 0) 16 16"
    if "fst (collect_tiles img c w) \<noteq> []" for idx c
    using that nth_collected_has_size [of idx img c w] nth_collected_has_size [of 0 img c w] by simp
  then show ?thesis
    using assms by (auto simp: etc_extract_saved [OF Some, of sets out w] list_all_iff dest!: set_takeWhileD)
qed

lemma has_size_crop_tile0:
  "has_size (crop im (x, 0, x + TILE_SIZE, TILE_SIZE)) 16 16"
  using has_size_crop_tile [of im x 0] by simp

lemma split_saved_sizes:
  assumes "list_all (\<lambda>(p, t). has_size t 16 16) (saved w)"
  shows "list_all (\<lambda>(p, t). has_size t 16 16) (saved (split_tileset name inp out w))"
  using assms
  by (auto simp: saved_split_tileset list_all_iff has_size_crop_tile0 split: option.splits)

lemma img_size_new_image: "0 < h \<Longrightarrow> img_size (new_image (w, h) c) = (w, h)"
  by (cases h) (simp_all add: img_size_def new_image_def)

lemma small_world_source: "files small_world source_path = Some small_sheet"
  by (simp add: small_world_def)

lemma big_world_source: "files big_world source_path = Some big_sheet"
  by (simp add: big_world_def)

lemma one_cell_collected: "length (fst (collect_tiles img one_cell w)) = 1"
  by (simp add: fst_collect_tiles one_cell_def)

lemma no_cells_collected: "fst (collect_tiles img no_cells w) = []"
  by (simp add: fst_collect_tiles no_cells_def)

lemma water_collected: "length (fst (collect_tiles img water_def w)) = 30"
  by (simp add: fst_collect_tiles water_def_def)

lemma water_in_bounds: "cells_in_bounds big_sheet water_def"
  by (simp add: cells_in_bounds_def water_def_def big_sheet_def img_size_new_image region_in_bounds_def
      cell_box_def TILE_STEP_def TILE_SIZE_def MARGIN_def upt_rec [of _ "numeral _"])

lemma tile_paths_16:
  "map (tile_path d name) [0..<16] =
     map (\<lambda>s. path_join d (name @ ''_'' @ s @ ''.png''))
       [''00'', ''01'', ''02'', ''03'', ''04'', ''05'', ''06'', ''07'',
        ''08'', ''09'', ''10'', ''11'', ''12'', ''13'', ''14'', ''15'']"
proof -
  have "map (tile_path d name) [0..<16] =
        map (\<lambda>s. path_join d (name @ ''_'' @ s @ ''.png'')) (map fmt_02d [0..<16])"
    by (simp add: tile_path_def [abs_def] comp_def)
  then show ?thesis
    unfolding fmt_02d_16 .
qed

lemma etc_tileset_saved_paths:
  assumes "fst (collect_tiles img c w) \<noteq> []"
  shows "map fst (drop (length (saved w)) (saved (snd (etc_tileset img out (name, c) w)))) =
           map (tile_path (path_join out name) name) [0..<16]"
  using etc_tileset_nonempty [OF assms, of out name w] by (simp add: comp_def)

lemma split_tileset_saved_paths:
  assumes "files w (path_join inp (name @ ''.png'')) = Some img"
  shows "map fst (drop (length (saved w)) (saved (split_tileset name inp out w))) =
           map (tile_path (path_join out name) name) [0..<16]"
  using assms by (simp add: saved_split_tileset comp_def)

lemma length_collected:
  "length (fst (collect_tiles img c w)) =
     length (filter (\<lambda>(row, col). (fst (start c) + int col, snd (start c) + int row) \<notin> set (exclude c))
               (List.product [0..<nat (snd (grid c))] [0..<nat (fst (grid c))]))"
  by (simp add: fst_collect_tiles)

lemma length_collected_no_exclude:
  "exclude c = [] \<Longrightarrow> length (fst (collect_tiles img c w)) = nat (fst (grid c)) * nat (snd (grid c))"
  by (simp add: length_collected)

lemma etc_tileset_first_16:
  assumes "16 \<le> length (fst (collect_tiles img c w))"
  shows "fst (etc_tileset img out (name, c) w) = Inr () \<and>
         saved (snd (etc_tileset img out (name, c) w)) =
           saved w @ map (\<lambda>idx. (tile_path (path_join out name) name idx,
                                 fst (collect_tiles img c w) ! idx)) [0..<16]"
proof -
  from assms have ne: "fst (collect_tiles img c w) \<noteq> []" by auto
  have "map (\<lambda>idx. (tile_path (path_join out name) name idx,
                                 if idx < length (fst (collect_tiles img c w))
                                 then fst (collect_tiles img c w) ! idx
                                 else fst (collect_tiles img c w) ! 0)) [0..<16] =
        map (\<lambda>idx. (tile_path (path_join out name) name idx,
                                 fst (collect_tiles img c w) ! idx)) [0..<16]"
    using assms by (intro map_cong) auto
  with etc_tileset_nonempty [OF ne, of out name w] show ?thesis
    by simp
qed

lemma saved_et_tileset:
  "saved (et_tileset img out (name, cfg) w) =
     saved w @ (if layout cfg = ''grid''
                then [(path_join out (name @ ''.png''), build_row img (coords cfg))] else [])"
  by (simp add: et_tileset_def Let_def)

lemma files_et_tileset:
  "files (et_tileset img out (name, cfg) w) =
     (if layout cfg = ''grid''
      then (files w)(path_join out (name @ ''.png'') \<mapsto> build_row img (coords cfg)) else files w)"
  by (simp add: et_tileset_def Let_def)

lemma saved_fold_et_tileset:
  "saved (fold (et_tileset img out) sets w) =
     saved w @ map (\<lambda>(name, cfg). (path_join out (name @ ''.png''), build_row img (coords cfg)))
                 (filter (\<lambda>(name, cfg). layout cfg = ''grid'') sets)"
  by (induction sets arbitrary: w) (auto simp: saved_et_tileset)

lemma et_extract_result:
  "files w src = Some img \<Longrightarrow> fst (et_extract_tileset_with sets src out w) = Inr ()"
  by (simp add: et_extract_tileset_with_def Let_def)

lemma et_extract_saved:
  "files w src = Some img \<Longrightarrow>
   saved (snd (et_extract_tileset_with sets src out w)) =
     saved w @ map (\<lambda>(name, cfg). (path_join out (name @ ''.png''), build_row img (coords cfg)))
                 (filter (\<lambda>(name, cfg). layout cfg = ''grid'') sets)"
  by (simp add: et_extract_tileset_with_def Let_def saved_fold_et_tileset)

lemma et_extract_missing:
  "files w src = None \<Longrightarrow> et_extract_tileset_with sets src out w = (Inl FileNotFoundError, w)"
  by (simp add: et_extract_tileset_with_def)

lemma crop_tile_nth:
  "i < 16 \<Longrightarrow> j < 16 \<Longrightarrow>
   crop img (x, y, x + TILE_SIZE, y + TILE_SIZE) ! j ! i = pixel_or_zero img (x + int i) (y + int j)"
  by (simp add: crop_nth TILE_SIZE_def)

lemma length_concat_16:
  "length (concat (map (\<lambda>(name, c). map (f name c) [0..<16]) sets)) = 16 * length sets"
  by (induction sets) auto

lemma takeWhile_all: "list_all P xs \<Longrightarrow> takeWhile P xs = xs"
  by (induction xs) auto

lemma etc_extract_all_saved:
  assumes "files w src = Some img"
    and "list_all (\<lambda>(name, c). fst (collect_tiles img c w) \<noteq> []) sets"
  shows "length (saved (snd (etc_extract_tileset_with sets src out w))) = length (saved w) + 16 * length sets"
  by (simp add: etc_extract_saved [OF assms(1), of sets out w] takeWhile_all [OF assms(2)] length_concat_16)

lemma small_grid_out_of_bounds: "\<not> grid_in_bounds small_sheet (289, 425)"
  by (simp add: grid_in_bounds_def upt_rec [of _ "numeral _"] region_in_bounds_def tile_box_def
      img_size_def small_sheet_def TILE_STEP_def TILE_SIZE_def MARGIN_def)

lemma has_size_nth: "has_size im w h \<Longrightarrow> j < h \<Longrightarrow> length (im ! j) = w"
  by (simp add: has_size_def list_all_length)

lemma has_size_length: "has_size im w h \<Longrightarrow> length im = h"
  by (simp add: has_size_def)

lemma has_size_new_image: "has_size (new_image (w, h) c) w h"
  by (simp add: has_size_def new_image_def list_all_iff)

lemma new_image_nth: "j < h \<Longrightarrow> i < w \<Longrightarrow> new_image (w, h) c ! j ! i = c"
  by (simp add: new_image_def)

lemma has_size_paste: "has_size dst w h \<Longrightarrow> has_size (paste dst src pos) w h"
  by (cases pos) (simp add: has_size_def paste_def list_all_length)

lemma paste_nth:
  "j < length dst \<Longrightarrow> i < length (dst ! j) \<Longrightarrow>
   paste dst src (ox, oy) ! j ! i =
     (if inside src (int i - ox) (int j - oy) then src ! nat (int j - oy) ! nat (int i - ox)
      else dst ! j ! i)"
  by (simp add: paste_def)

lemma inside_tile:
  "has_size t 16 16 \<Longrightarrow> inside t x y = (0 \<le> x \<and> x < 16 \<and> 0 \<le> y \<and> y < 16)"
  by (auto simp: inside_def has_size_def list_all_length)

lemma has_size_eqI:
  assumes "has_size a w h" and "has_size b w h"
    and "\<And>i j. i < w \<Longrightarrow> j < h \<Longrightarrow> a ! j ! i = b ! j ! i"
  shows "a = b"
proof (rule nth_equalityI)
  show "length a = length b"
    using assms(1,2) by (simp add: has_size_def)
  fix j assume "j < length a"
  then have j: "j < h" using assms(1) by (simp add: has_size_def)
  show "a ! j = b ! j"
  proof (rule nth_equalityI)
    show "length (a ! j) = length (b ! j)"
      using has_size_nth [OF assms(1) j] has_size_nth [OF assms(2) j] by simp
    fix i assume "i < length (a ! j)"
    then have "i < w" using has_size_nth [OF assms(1) j] by simp
    then show "a ! j ! i = b ! j ! i" using j by (rule assms(3))
  qed
qed

lemma slot_div_mod:
  assumes "16 * n \<le> (i::nat)" and "i < 16 * n + 16"
  shows "i div 16 = n" and "i mod 16 = i - 16 * n"
proof -
  obtain r where r: "i = 16 * n + r" and "r < 16"
    using assms by (metis le_Suc_ex nat_add_left_cancel_less)
  then show "i div 16 = n" and "i mod 16 = i - 16 * n"
    by simp_all
qed

lemma inside_slot:
  assumes "has_size t 16 16" and "j < 16"
  shows "inside t (int i - int n * TILE_SIZE) (int j - 0) = (16 * n \<le> i \<and> i < 16 * n + 16)"
proof -
  have "inside t (int i - int n * TILE_SIZE) (int j - 0) =
          (0 \<le> int i - int n * 16 \<and> int i - int n * 16 < 16)"
    using assms(2) by (simp add: inside_tile [OF assms(1)] TILE_SIZE_def)
  also have "\<dots> = (16 * n \<le> i \<and> i < 16 * n + 16)"
    by linarith
  finally show ?thesis .
qed

lemma slot_offset:
  "16 * n \<le> i \<Longrightarrow> nat (int i - int n * TILE_SIZE) = i - 16 * n"
  by (simp add: TILE_SIZE_def)

text \<open>The row image after the first \<open>n\<close> tiles have been pasted.\<close>

lemma paste_tiles_invariant:
  assumes "\<And>idx. idx < n \<Longrightarrow> has_size (tile idx) 16 16" and "n \<le> 16"
  shows "has_size (fold (\<lambda>idx row_image. paste row_image (tile idx) (int idx * TILE_SIZE, 0)) [0..<n]
                    (new_image (256, 16) transparent)) 256 16 \<and>
         (\<forall>j < 16. \<forall>i < 256.
            fold (\<lambda>idx row_image. paste row_image (tile idx) (int idx * TILE_SIZE, 0)) [0..<n]
              (new_image (256, 16) transparent) ! j ! i =
            (if i < 16 * n then tile (i div 16) ! j ! (i mod 16) else transparent))"
  using assms
proof (induction n)
  case 0
  then show ?case
    by (simp add: has_size_new_image new_image_nth)
next
  case (Suc n)
  define row where "row = fold (\<lambda>idx row_image. paste row_image (tile idx) (int idx * TILE_SIZE, 0)) [0..<n]
                    (new_image (256, 16) transparent)"
  have ih: "has_size row 256 16 \<and>
         (\<forall>j < 16. \<forall>i < 256.
            row ! j ! i = (if i < 16 * n then tile (i div 16) ! j ! (i mod 16) else transparent))"
    unfolding row_def using Suc.prems by (intro Suc.IH) simp_all
  then have sz: "has_size row 256 16"
    and px: "\<And>i j. j < 16 \<Longrightarrow> i < 256 \<Longrightarrow>
               row ! j ! i = (if i < 16 * n then tile (i div 16) ! j ! (i mod 16) else transparent)"
    by blast+
  have t: "has_size (tile n) 16 16"
    using Suc.prems by simp
  have step: "fold (\<lambda>idx row_image. paste row_image (tile idx) (int idx * TILE_SIZE, 0)) [0..<Suc n]
                    (new_image (256, 16) transparent) = paste row (tile n) (int n * TILE_SIZE, 0)"
    by (simp add: row_def)
  have pixel: "paste row (tile n) (int n * TILE_SIZE, 0) ! j ! i =
          (if i < 16 * Suc n then tile (i div 16) ! j ! (i mod 16) else transparent)"
    if j: "j < 16" and i: "i < 256" for i j
  proof -
    have lj: "j < length row" and li: "i < length (row ! j)"
      using j i has_size_length [OF sz] has_size_nth [OF sz j] by simp_all
    have p: "paste row (tile n) (int n * TILE_SIZE, 0) ! j ! i =
            (if inside (tile n) (int i - int n * TILE_SIZE) (int j - 0)
             then tile n ! nat (int j - 0) ! nat (int i - int n * TILE_SIZE) else row ! j ! i)"
      using lj li by (rule paste_nth)
    show ?thesis
    proof (cases "16 * n \<le> i \<and> i < 16 * n + 16")
      case True
      then have d: "i div 16 = n" and m: "i mod 16 = i - 16 * n"
        using slot_div_mod [of n i] by simp_all
      have o: "nat (int i - int n * TILE_SIZE) = i - 16 * n"
        using True by (simp add: slot_offset)
      have "paste row (tile n) (int n * TILE_SIZE, 0) ! j ! i = tile n ! j ! (i - 16 * n)"
        using True by (simp only: p inside_slot [OF t j] o if_True) simp
      with True d m show ?thesis by simp
    next
      case False
      then have "paste row (tile n) (int n * TILE_SIZE, 0) ! j ! i = row ! j ! i"
        by (simp only: p inside_slot [OF t j] if_False)
      with False px [OF j i] show ?thesis by auto
    qed
  qed
  have "has_size (paste row (tile n) (int n * TILE_SIZE, 0)) 256 16"
    using sz by (rule has_size_paste)
  with pixel show ?case
    unfolding step by blast
qed

lemma strip_slot:
  assumes sz: "has_size strip 256 16"
    and px: "\<And>i j. j < 16 \<Longrightarrow> i < 256 \<Longrightarrow> strip ! j ! i = tile (i div 16) ! j ! (i mod 16)"
    and t: "has_size (tile v) 16 16" and v: "v < 16"
  shows "crop strip (int v * TILE_SIZE, 0, int v * TILE_SIZE + TILE_SIZE, 0 + TILE_SIZE) = tile v"
proof (rule has_size_eqI [where w = 16 and h = 16])
  show "has_size (crop strip (int v * TILE_SIZE, 0, int v * TILE_SIZE + TILE_SIZE, 0 + TILE_SIZE)) 16 16"
    by (rule has_size_crop_tile)
  show "has_size (tile v) 16 16" by (rule t)
  fix i j :: nat
  assume i: "i < 16" and j: "j < 16"
  from v i have x: "16 * v + i < 256" by simp
  have ins: "inside strip (int (16 * v + i)) (int j)"
    using j x has_size_length [OF sz] has_size_nth [OF sz j] by (simp add: inside_def)
  have "crop strip (int v * TILE_SIZE, 0, int v * TILE_SIZE + TILE_SIZE, 0 + TILE_SIZE) ! j ! i =
          pixel_or_zero strip (int v * TILE_SIZE + int i) (0 + int j)"
    using i j by (rule crop_tile_nth)
  also have "\<dots> = pixel_or_zero strip (int (16 * v + i)) (int j)"
    by (simp add: TILE_SIZE_def mult.commute)
  also have "\<dots> = strip ! j ! (16 * v + i)"
    by (simp only: pixel_or_zero_def ins if_True nat_int)
  also have "\<dots> = tile ((16 * v + i) div 16) ! j ! ((16 * v + i) mod 16)"
    using j x by (rule px)
  also have "\<dots> = tile v ! j ! i"
    using i by simp
  finally show "crop strip (int v * TILE_SIZE, 0, int v * TILE_SIZE + TILE_SIZE, 0 + TILE_SIZE) ! j ! i =
                tile v ! j ! i" .
qed

lemma build_row_fold:
  "build_row img origin =
     fold (\<lambda>idx row_image. paste row_image (crop img (tile_box origin idx)) (int idx * TILE_SIZE, 0))
       [0..<16] (new_image (256, 16) transparent)"
  by (simp add: build_row_def grid_step_def [abs_def] TILE_SIZE_def)

lemma has_size_build_row: "has_size (build_row img origin) 256 16"
  unfolding build_row_fold
  using paste_tiles_invariant [of 16 "\<lambda>idx. crop img (tile_box origin idx)"]
  by (simp add: has_size_tile_box)

lemma build_row_pixel:
  "j < 16 \<Longrightarrow> i < 256 \<Longrightarrow>
   build_row img origin ! j ! i = crop img (tile_box origin (i div 16)) ! j ! (i mod 16)"
  unfolding build_row_fold
  using paste_tiles_invariant [of 16 "\<lambda>idx. crop img (tile_box origin idx)"]
  by (simp add: has_size_tile_box)

lemma crop_build_row:
  assumes "v < 16"
  shows "crop (build_row img origin) (int v * TILE_SIZE, 0, int v * TILE_SIZE + TILE_SIZE, 0 + TILE_SIZE) =
           crop img (tile_box origin v)"
  using has_size_build_row
proof (rule strip_slot [where tile = "\<lambda>idx. crop img (tile_box origin idx)"])
  show "has_size (crop img (tile_box origin v)) 16 16" by (rule has_size_tile_box)
  show "v < 16" by (rule assms)
  show "build_row img origin ! j ! i = crop img (tile_box origin (i div 16)) ! j ! (i mod 16)"
    if "j < 16" and "i < 256" for i j
    using that by (rule build_row_pixel)
qed

lemma paste_tiles_round_trip:
  assumes "length tiles = 16" and "list_all (\<lambda>t. has_size t 16 16) tiles" and "v < 16"
  shows "crop (fold (\<lambda>idx row_image. paste row_image (tiles ! idx) (int idx * TILE_SIZE, 0)) [0..<16]
                 (new_image (nat (16 * TILE_SIZE), nat TILE_SIZE) transparent))
              (int v * TILE_SIZE, 0, int v * TILE_SIZE + TILE_SIZE, 0 + TILE_SIZE) = tiles ! v"
proof -
  have t: "has_size (tiles ! idx) 16 16" if "idx < 16" for idx
    using assms(1,2) that by (simp add: list_all_length)
  have n: "new_image (nat (16 * TILE_SIZE), nat TILE_SIZE) transparent = new_image (256, 16) transparent"
    by (simp add: TILE_SIZE_def)
  from paste_tiles_invariant [of 16 "\<lambda>idx. tiles ! idx", OF t]
  have sz: "has_size (fold (\<lambda>idx row_image. paste row_image (tiles ! idx) (int idx * TILE_SIZE, 0)) [0..<16]
                    (new_image (256, 16) transparent)) 256 16"
    and px: "\<And>i j. j < 16 \<Longrightarrow> i < 256 \<Longrightarrow>
       fold (\<lambda>idx row_image. paste row_image (tiles ! idx) (int idx * TILE_SIZE, 0)) [0..<16]
              (new_image (256, 16) transparent) ! j ! i = tiles ! (i div 16) ! j ! (i mod 16)"
    by simp_all
  show ?thesis
    unfolding n using sz px t [OF assms(3)] assms(3)
    by (rule strip_slot [where tile = "\<lambda>idx. tiles ! idx"])
qed

lemma tile_box_cell:
  "col < 4 \<Longrightarrow>
   tile_box (sx, sy) (row * 4 + col) =
     (sx + int col * 17, sy + int row * 17, sx + int col * 17 + 16, sy + int row * 17 + 16)"
  by (simp add: tile_box_def Let_def TILE_STEP_def TILE_SIZE_def MARGIN_def)

lemma grid_step_cell:
  "col < 4 \<Longrightarrow>
   grid_step img (sx, sy) (row * 4 + col) row_image =
     paste row_image
       (crop img (sx + int col * 17, sy + int row * 17, sx + int col * 17 + 16, sy + int row * 17 + 16))
       (int (row * 4 + col) * 16, 0)"
  by (simp add: grid_step_def Let_def tile_box_cell) (simp add: TILE_SIZE_def)

lemma build_row_cell:
  assumes "col < 4" and "row < 4"
  shows "crop (build_row img (sx, sy))
           (int (row * 4 + col) * TILE_SIZE, 0, int (row * 4 + col) * TILE_SIZE + TILE_SIZE, 0 + TILE_SIZE) =
         crop img (sx + int col * 17, sy + int row * 17, sx + int col * 17 + 16, sy + int row * 17 + 16)"
proof -
  from assms have "row * 4 + col < 16" by simp
  then show ?thesis
    by (simp only: crop_build_row tile_box_cell [OF assms(1)])
qed

lemma collected_4x4:
  "fst (collect_tiles img grid_4x4 w) ! (1 * 4 + 2) = crop img (34, 17, 34 + 16, 17 + 16)"
  by (simp add: fst_collect_tiles grid_4x4_def upt_rec [of _ "numeral _"] TILE_STEP_def TILE_SIZE_def MARGIN_def)

lemma strip_world_saved:
  "length (saved (split_tileset ''water'' output_path output_path strip_world)) = 16"
  by (simp add: saved_split_tileset strip_world_def output_path_def path_join_def)

lemma grid_step_tile:
  "grid_step img origin idx row_image =
     paste row_image (crop img (tile_box origin idx)) (int idx * TILE_SIZE, 0)"
  by (simp add: grid_step_def Let_def)

lemma shipped_tilesets_collect:
  "list_all (\<lambda>(name, c). fst (collect_tiles img c w) \<noteq> []) TILESETS"
  by (simp add: TILESETS_def collect_tiles_empty_iff) (auto intro: exI [of _ 0])

lemma files_fold_et_tileset_other:
  "p \<notin> set (map (\<lambda>(n, c). path_join out (n @ ''.png'')) sets) \<Longrightarrow>
   files (fold (et_tileset img out) sets w) p = files w p"
  by (induction sets arbitrary: w) (auto simp: files_et_tileset)

lemma files_fold_et_tileset_entry:
  assumes "distinct (map (\<lambda>(n, c). path_join out (n @ ''.png'')) sets)"
    and "(name, cfg) \<in> set sets" and "layout cfg = ''grid''"
  shows "files (fold (et_tileset img out) sets w) (path_join out (name @ ''.png'')) =
           Some (build_row img (coords cfg))"
  using assms
proof (induction sets arbitrary: w)
  case Nil
  then show ?case by simp
next
  case (Cons entry rest)
  obtain n c where e: "entry = (n, c)" by (cases entry)
  show ?case
  proof (cases "(name, cfg) = entry")
    case True
    then have "path_join out (name @ ''.png'') \<notin> set (map (\<lambda>(n, c). path_join out (n @ ''.png'')) rest)"
      using Cons.prems(1) by auto
    then have "files (fold (et_tileset img out) rest (et_tileset img out (name, cfg) w))
                 (path_join out (name @ ''.png'')) =
               files (et_tileset img out (name, cfg) w) (path_join out (name @ ''.png''))"
      by (rule files_fold_et_tileset_other)
    with Cons.prems(3) show ?thesis
      by (simp add: True [symmetric] files_et_tileset)
  next
    case False
    with Cons.prems have "(name, cfg) \<in> set rest" and "distinct (map (\<lambda>(n, c). path_join out (n @ ''.png'')) rest)"
      by auto
    then show ?thesis
      using Cons.IH [of "et_tileset img out entry w"] Cons.prems(3) by simp
  qed
qed

lemma files_et_extract:
  "files w src = Some img \<Longrightarrow>
   files (snd (et_extract_tileset_with sets src out w)) =
     files (fold (et_tileset img out) sets (say (ImageSize (img_size img)) (say (LoadingSheet src) w)))"
  by (simp add: et_extract_tileset_with_def Let_def)

lemma files_split_variant:
  "files (split_variant img d name v w) = (files w)(tile_path d name v \<mapsto>
     crop img (int v * TILE_SIZE, 0, int v * TILE_SIZE + TILE_SIZE, 0 + TILE_SIZE))"
  by (simp add: split_variant_def Let_def tile_path_def)

lemma files_fold_split_variant_other:
  "p \<notin> set (map (tile_path d name) vs) \<Longrightarrow> files (fold (split_variant img d name) vs w) p = files w p"
  by (induction vs arbitrary: w) (auto simp: files_split_variant)

lemma files_split_tileset_other:
  "p \<notin> set (map (tile_path (path_join out name) name) [0..<16]) \<Longrightarrow>
   files (split_tileset name inp out w) p = files w p"
  by (simp add: split_tileset_def Let_def VARIANTS_def files_fold_split_variant_other split: option.splits)






lemma split_loop_files:
  assumes "\<forall>t' \<in> set ts. p \<notin> set (map (tile_path (path_join d t') t') [0..<16])"
  shows "files (fold (\<lambda>t. split_tileset t d d) ts w) p = files w p"
  using assms
proof (induction ts arbitrary: w)
  case Nil
  then show ?case by simp
next
  case (Cons t ts)
  then have "files (fold (\<lambda>t. split_tileset t d d) ts (split_tileset t d d w)) p =
             files (split_tileset t d d w) p"
    by simp
  also have "\<dots> = files w p"
    using Cons.prems by (intro files_split_tileset_other) simp
  finally show ?case by simp
qed




lemma split_after_extract:
  assumes "files w src = Some img" and "(name, cfg) \<in> set sets" and "layout cfg = ''grid''"
    and "distinct (map (\<lambda>(n, c). path_join out (n @ ''.png'')) sets)"
  shows "saved (split_tileset name out out2 (snd (et_extract_tileset_with sets src out w))) =
           saved (snd (et_extract_tileset_with sets src out w)) @
           map (\<lambda>v. (tile_path (path_join out2 name) name v, crop img (tile_box (coords cfg) v))) [0..<16]"
proof -
  have f: "files (snd (et_extract_tileset_with sets src out w)) (path_join out (name @ ''.png'')) =
             Some (build_row img (coords cfg))"
    by (simp only: files_et_extract [OF assms(1)] files_fold_et_tileset_entry [OF assms(4,2,3)])
  have "map (\<lambda>v. (tile_path (path_join out2 name) name v,
                   crop (build_row img (coords cfg))
                     (int v * TILE_SIZE, 0, int v * TILE_SIZE + TILE_SIZE, 0 + TILE_SIZE))) [0..<16] =
        map (\<lambda>v. (tile_path (path_join out2 name) name v, crop img (tile_box (coords cfg) v))) [0..<16]"
    by (rule map_cong) (simp_all only: crop_build_row set_upt atLeastLessThan_iff)
  then show ?thesis
    by (simp only: saved_split_tileset f option.case)
qed

lemma paste_tiles_round_trip_all:
  assumes "length tiles = 16" and "list_all (\<lambda>t. has_size t 16 16) tiles"
  shows "map (\<lambda>v. crop (fold (\<lambda>idx row_image. paste row_image (tiles ! idx) (int idx * TILE_SIZE, 0)) [0..<16]
                 (new_image (nat (16 * TILE_SIZE), nat TILE_SIZE) transparent))
              (int v * TILE_SIZE, 0, int v * TILE_SIZE + TILE_SIZE, 0 + TILE_SIZE)) [0..<16] = tiles"
proof (rule nth_equalityI)
  show "length (map (\<lambda>v. crop (fold (\<lambda>idx row_image. paste row_image (tiles ! idx) (int idx * TILE_SIZE, 0)) [0..<16]
                 (new_image (nat (16 * TILE_SIZE), nat TILE_SIZE) transparent))
              (int v * TILE_SIZE, 0, int v * TILE_SIZE + TILE_SIZE, 0 + TILE_SIZE)) [0..<16]) = length tiles"
    using assms(1) by simp
  fix v
  assume "v < length (map (\<lambda>v. crop (fold (\<lambda>idx row_image. paste row_image (tiles ! idx) (int idx * TILE_SIZE, 0)) [0..<16]
                 (new_image (nat (16 * TILE_SIZE), nat TILE_SIZE) transparent))
              (int v * TILE_SIZE, 0, int v * TILE_SIZE + TILE_SIZE, 0 + TILE_SIZE)) [0..<16])"
  then have v: "v < 16" by simp
  from paste_tiles_round_trip [OF assms v] v
  show "map (\<lambda>v. crop (fold (\<lambda>idx row_image. paste row_image (tiles ! idx) (int idx * TILE_SIZE, 0)) [0..<16]
                 (new_image (nat (16 * TILE_SIZE), nat TILE_SIZE) transparent))
              (int v * TILE_SIZE, 0, int v * TILE_SIZE + TILE_SIZE, 0 + TILE_SIZE)) [0..<16] ! v = tiles ! v"
    by simp
qed

lemma corner_pixel: "crop small_sheet (tile_box (0, 0) 0) ! 0 ! 0 = (1, 2, 3, 255)"
  by (simp add: tile_box_def Let_def TILE_SIZE_def TILE_STEP_def crop_nth pixel_or_zero_def inside_def
      small_sheet_def)

section \<open>The claims\<close>

text \<open>
  C10. The padding loop of extract\_tiles\_correct.py reads \<open>tiles[0]\<close>: a tile set that
  collects no tile (a grid without cells, or every cell excluded) raises \<open>IndexError\<close>, the
  exception leaves \<open>extract_tileset\<close> uncaught as soon as some tile set of the table
  collects no tile, and the function returns normally (exit status 0) exactly when every
  tile set of the table collects at least one tile.
\<close>

theorem empty_tileset_index_error:
  assumes "files w src = Some img"
  shows "fst (etc_tileset img out (name, c) w) =
           (if fst (collect_tiles img c w) = [] then Inl IndexError else Inr ()) \<and>
         (fst (etc_extract_tileset_with sets src out w) = Inl IndexError) =
           (\<exists>(name, c) \<in> set sets. fst (collect_tiles img c w) = []) \<and>
         (fst (etc_extract_tileset_with sets src out w) = Inr ()) =
           (\<forall>(name, c) \<in> set sets. fst (collect_tiles img c w) \<noteq> []) \<and>
         (exit_status (fst (etc_extract_tileset_with sets src out w)) = 0) =
           (\<forall>(name, c) \<in> set sets. fst (collect_tiles img c w) \<noteq> []) \<and>
         (fst (collect_tiles img c w) = []) =
           (\<forall>row < nat (snd (grid c)). \<forall>col < nat (fst (grid c)).
              (fst (start c) + int col, snd (start c) + int row) \<in> set (exclude c))"
proof (intro conjI)
  show "fst (etc_tileset img out (name, c) w) =
           (if fst (collect_tiles img c w) = [] then Inl IndexError else Inr ())"
    using etc_tileset_empty [of img c w out name w] etc_tileset_nonempty [of img c w out name w]
    by simp
  have r: "fst (etc_extract_tileset_with sets src out w) =
     (if list_all (\<lambda>(name, c). fst (collect_tiles img c w) \<noteq> []) sets then Inr () else Inl IndexError)"
    using assms by (rule etc_extract_result)
  show "(fst (etc_extract_tileset_with sets src out w) = Inl IndexError) =
           (\<exists>(name, c) \<in> set sets. fst (collect_tiles img c w) = [])"
    unfolding r by (auto simp: list_all_iff)
  show "(fst (etc_extract_tileset_with sets src out w) = Inr ()) =
           (\<forall>(name, c) \<in> set sets. fst (collect_tiles img c w) \<noteq> [])"
    unfolding r by (auto simp: list_all_iff)
  show "(exit_status (fst (etc_extract_tileset_with sets src out w)) = 0) =
           (\<forall>(name, c) \<in> set sets. fst (collect_tiles img c w) \<noteq> [])"
    unfolding r by (auto simp: list_all_iff exit_status_def)
  show "(fst (collect_tiles img c w) = []) =
           (\<forall>row < nat (snd (grid c)). \<forall>col < nat (fst (grid c)).
              (fst (start c) + int col, snd (start c) + int row) \<in> set (exclude c))"
    by (rule collect_tiles_empty_iff)
qed

theorem empty_tileset_index_error_witness:
  "files small_world source_path = Some small_sheet \<and>
   fst (etc_tileset small_sheet output_path (''none'', no_cells) small_world) = Inl IndexError \<and>
   fst (etc_extract_tileset_with [(''none'', no_cells)] source_path output_path small_world) = Inl IndexError"
proof -
  have f: "files small_world source_path = Some small_sheet"
    by (simp add: small_world_def)
  have e: "fst (collect_tiles small_sheet no_cells small_world) = []"
    by (simp add: collect_tiles_def no_cells_def)
  show ?thesis
    using empty_tileset_index_error [OF f, of output_path "''none''" no_cells "[(''none'', no_cells)]"] e f
    by simp
qed

text \<open>
  C4, at \<open>k = 0\<close>: a tile set that collects no tile has fewer than 16 tiles, and nothing
  is written for it; the padding raises \<open>IndexError\<close>.
\<close>

theorem pad_zero_tiles_counterexample:
  "length (fst (collect_tiles small_sheet no_cells small_world)) < 16 \<and>
   fst (etc_tileset small_sheet output_path (''none'', no_cells) small_world) = Inl IndexError \<and>
   saved (snd (etc_tileset small_sheet output_path (''none'', no_cells) small_world)) = []"
  using etc_tileset_empty [where img = small_sheet and c = no_cells and ?w0.0 = small_world
      and out = output_path and name = "''none''" and w = small_world]
  by (simp add: no_cells_collected small_world_def)

text \<open>
  C4, amended. For a tile set that collects \<open>k\<close> tiles with \<open>1 \<le> k < 16\<close>, the
  tile set is written as exactly 16 files: the file of index \<open>idx < k\<close> holds tile
  \<open>idx\<close> and every file of index \<open>k \<le> idx < 16\<close> holds a copy of tile 0.
\<close>

theorem pad_with_first_tile:
  assumes "0 < length (fst (collect_tiles img c w))" and "length (fst (collect_tiles img c w)) < 16"
  shows "fst (etc_tileset img out (name, c) w) = Inr () \<and>
         length (saved (snd (etc_tileset img out (name, c) w))) = length (saved w) + 16 \<and>
         (\<forall>idx < 16.
            saved (snd (etc_tileset img out (name, c) w)) ! (length (saved w) + idx) =
              (tile_path (path_join out name) name idx,
               if idx < length (fst (collect_tiles img c w))
               then fst (collect_tiles img c w) ! idx
               else fst (collect_tiles img c w) ! 0))"
proof -
  from assms(1) have ne: "fst (collect_tiles img c w) \<noteq> []" by auto
  show ?thesis
    using etc_tileset_nonempty [OF ne, of out name w]
    by (simp add: nth_append)
qed

theorem pad_with_first_tile_witness:
  "0 < length (fst (collect_tiles small_sheet one_cell small_world)) \<and>
   length (fst (collect_tiles small_sheet one_cell small_world)) < 16 \<and>
   fst (etc_tileset small_sheet output_path (''one'', one_cell) small_world) = Inr () \<and>
   length (saved (snd (etc_tileset small_sheet output_path (''one'', one_cell) small_world))) = 16 \<and>
   snd (saved (snd (etc_tileset small_sheet output_path (''one'', one_cell) small_world)) ! 15) =
     fst (collect_tiles small_sheet one_cell small_world) ! 0"
proof -
  have a: "0 < length (fst (collect_tiles small_sheet one_cell small_world))"
    and b: "length (fst (collect_tiles small_sheet one_cell small_world)) < 16"
    by (simp_all add: one_cell_collected)
  have s: "saved small_world = []" by (simp add: small_world_def)
  from pad_with_first_tile [OF a b, of output_path "''one''"] a b s show ?thesis
    by (simp add: one_cell_collected)
qed

text \<open>
  C6. A tile set written as individual files is written under the names
  \<open>name_00.png\<close> to \<open>name_15.png\<close> of its directory, in this order: by
  extract\_tiles\_correct.py for every tile set that collects a tile, by split\_tiles.py for
  every tile set whose strip exists. The sixteen paths are distinct, so the number of files
  written is 16, the size of the tile set.
\<close>

theorem individual_file_names:
  "(fst (collect_tiles img c w) \<noteq> [] \<longrightarrow>
      map fst (drop (length (saved w)) (saved (snd (etc_tileset img out (name, c) w)))) =
        map (\<lambda>s. path_join (path_join out name) (name @ ''_'' @ s @ ''.png''))
          [''00'', ''01'', ''02'', ''03'', ''04'', ''05'', ''06'', ''07'',
           ''08'', ''09'', ''10'', ''11'', ''12'', ''13'', ''14'', ''15'']) \<and>
   (files w (path_join inp (name @ ''.png'')) \<noteq> None \<longrightarrow>
      map fst (drop (length (saved w)) (saved (split_tileset name inp out w))) =
        map (\<lambda>s. path_join (path_join out name) (name @ ''_'' @ s @ ''.png''))
          [''00'', ''01'', ''02'', ''03'', ''04'', ''05'', ''06'', ''07'',
           ''08'', ''09'', ''10'', ''11'', ''12'', ''13'', ''14'', ''15'']) \<and>
   distinct (map (\<lambda>s. path_join (path_join out name) (name @ ''_'' @ s @ ''.png''))
          [''00'', ''01'', ''02'', ''03'', ''04'', ''05'', ''06'', ''07'',
           ''08'', ''09'', ''10'', ''11'', ''12'', ''13'', ''14'', ''15'']) \<and>
   length (map (\<lambda>s. path_join (path_join out name) (name @ ''_'' @ s @ ''.png''))
          [''00'', ''01'', ''02'', ''03'', ''04'', ''05'', ''06'', ''07'',
           ''08'', ''09'', ''10'', ''11'', ''12'', ''13'', ''14'', ''15'']) = 16"
proof (intro conjI impI)
  assume "fst (collect_tiles img c w) \<noteq> []"
  then have "map fst (drop (length (saved w)) (saved (snd (etc_tileset img out (name, c) w)))) =
           map (tile_path (path_join out name) name) [0..<16]"
    by (rule etc_tileset_saved_paths)
  then show "map fst (drop (length (saved w)) (saved (snd (etc_tileset img out (name, c) w)))) =
        map (\<lambda>s. path_join (path_join out name) (name @ ''_'' @ s @ ''.png''))
          [''00'', ''01'', ''02'', ''03'', ''04'', ''05'', ''06'', ''07'',
           ''08'', ''09'', ''10'', ''11'', ''12'', ''13'', ''14'', ''15'']"
    unfolding tile_paths_16 .
next
  assume "files w (path_join inp (name @ ''.png'')) \<noteq> None"
  then obtain strip where "files w (path_join inp (name @ ''.png'')) = Some strip"
    by blast
  then have "map fst (drop (length (saved w)) (saved (split_tileset name inp out w))) =
           map (tile_path (path_join out name) name) [0..<16]"
    by (rule split_tileset_saved_paths)
  then show "map fst (drop (length (saved w)) (saved (split_tileset name inp out w))) =
        map (\<lambda>s. path_join (path_join out name) (name @ ''_'' @ s @ ''.png''))
          [''00'', ''01'', ''02'', ''03'', ''04'', ''05'', ''06'', ''07'',
           ''08'', ''09'', ''10'', ''11'', ''12'', ''13'', ''14'', ''15'']"
    unfolding tile_paths_16 .
next
  show "distinct (map (\<lambda>s. path_join (path_join out name) (name @ ''_'' @ s @ ''.png''))
          [''00'', ''01'', ''02'', ''03'', ''04'', ''05'', ''06'', ''07'',
           ''08'', ''09'', ''10'', ''11'', ''12'', ''13'', ''14'', ''15''])"
    using distinct_tile_paths [of "path_join out name" name] by (simp only: tile_paths_16)
next
  show "length (map (\<lambda>s. path_join (path_join out name) (name @ ''_'' @ s @ ''.png''))
          [''00'', ''01'', ''02'', ''03'', ''04'', ''05'', ''06'', ''07'',
           ''08'', ''09'', ''10'', ''11'', ''12'', ''13'', ''14'', ''15'']) = 16"
    by simp
qed

theorem individual_file_names_witness:
  "fst (collect_tiles small_sheet one_cell small_world) \<noteq> [] \<and>
   files small_world (path_join [] (''roguelikeSheet_transparent'' @ ''.png'')) \<noteq> None \<and>
   map fst (drop (length (saved small_world))
      (saved (snd (etc_tileset small_sheet ''out'' (''roguelikeSheet_transparent'', one_cell) small_world)))) =
     map (\<lambda>s. ''out/roguelikeSheet_transparent/roguelikeSheet_transparent_'' @ s @ ''.png'')
       [''00'', ''01'', ''02'', ''03'', ''04'', ''05'', ''06'', ''07'',
        ''08'', ''09'', ''10'', ''11'', ''12'', ''13'', ''14'', ''15''] \<and>
   map fst (drop (length (saved small_world))
      (saved (split_tileset ''roguelikeSheet_transparent'' [] ''out'' small_world))) =
     map (\<lambda>s. ''out/roguelikeSheet_transparent/roguelikeSheet_transparent_'' @ s @ ''.png'')
       [''00'', ''01'', ''02'', ''03'', ''04'', ''05'', ''06'', ''07'',
        ''08'', ''09'', ''10'', ''11'', ''12'', ''13'', ''14'', ''15'']"
proof -
  have ne: "fst (collect_tiles small_sheet one_cell small_world) \<noteq> []"
    using one_cell_collected [of small_sheet small_world] by auto
  have f: "files small_world (path_join [] (''roguelikeSheet_transparent'' @ ''.png'')) \<noteq> None"
    by (simp add: small_world_def path_join_def source_path_def)
  from individual_file_names [of small_sheet one_cell small_world "''out''"
      "''roguelikeSheet_transparent''" "[]"] ne f
  show ?thesis
    by (simp add: path_join_def)
qed

text \<open>
  C3, as stated: the six rows of five cells of the water tile set all lie inside a sheet of
  512 by 512 pixels, and the extraction writes 16 tiles, not 30.
\<close>

theorem tile_count_counterexample:
  "cells_in_bounds big_sheet water_def \<and>
   nat (fst (grid water_def)) * nat (snd (grid water_def)) = 30 \<and>
   fst (etc_tileset big_sheet output_path (''water'', water_def) big_world) = Inr () \<and>
   length (saved (snd (etc_tileset big_sheet output_path (''water'', water_def) big_world))) = 16"
proof -
  have "16 \<le> length (fst (collect_tiles big_sheet water_def big_world))"
    by (simp add: water_collected)
  from etc_tileset_first_16 [OF this, of output_path "''water''"] water_in_bounds show ?thesis
    by (simp add: water_def_def big_world_def)
qed

text \<open>
  C3, amended. For every grid whose cells all lie inside the sheet, the collection loop
  collects exactly one tile per cell that is not excluded, columns times rows tiles when
  no cell is excluded, each of size 16 by 16; when 16 or more tiles are collected, the
  tile set that is kept and written consists of the first 16 of them.
\<close>

theorem tile_count:
  assumes "cells_in_bounds img c"
  shows "length (fst (collect_tiles img c w)) =
           length (filter (\<lambda>(row, col). (fst (start c) + int col, snd (start c) + int row) \<notin> set (exclude c))
                     (List.product [0..<nat (snd (grid c))] [0..<nat (fst (grid c))])) \<and>
         (exclude c = [] \<longrightarrow>
            length (fst (collect_tiles img c w)) = nat (fst (grid c)) * nat (snd (grid c))) \<and>
         list_all (\<lambda>t. has_size t 16 16) (fst (collect_tiles img c w)) \<and>
         (16 \<le> length (fst (collect_tiles img c w)) \<longrightarrow>
            fst (etc_tileset img out (name, c) w) = Inr () \<and>
            saved (snd (etc_tileset img out (name, c) w)) =
              saved w @ map (\<lambda>idx. (tile_path (path_join out name) name idx,
                                    fst (collect_tiles img c w) ! idx)) [0..<16])"
  using length_collected [of img c w] length_collected_no_exclude [of c img w]
    has_size_collected [of img c w] etc_tileset_first_16 [of img c w out name]
  by blast

theorem tile_count_witness:
  "cells_in_bounds big_sheet water_def \<and>
   length (fst (collect_tiles big_sheet water_def big_world)) = 5 * 6 \<and>
   list_all (\<lambda>t. has_size t 16 16) (fst (collect_tiles big_sheet water_def big_world)) \<and>
   length (saved (snd (etc_tileset big_sheet output_path (''water'', water_def) big_world))) = 16"
proof -
  have e: "exclude water_def = []" and g: "grid water_def = (5, 6)"
    by (simp_all add: water_def_def)
  have s: "saved big_world = []"
    by (simp add: big_world_def)
  from tile_count [OF water_in_bounds, of big_world output_path "''water''"] water_in_bounds e g s
  show ?thesis
    by simp
qed

text \<open>
  C2, as stated: on a sheet of 2 by 2 pixels every region of the grass grid of
  extract\_tiles.py exceeds the sheet, and the extraction returns normally and writes all
  four strips.
\<close>

theorem out_of_bounds_counterexample:
  "\<not> grid_in_bounds small_sheet (289, 425) \<and>
   fst (et_extract_tileset source_path ''out'' small_world) = Inr () \<and>
   map fst (saved (snd (et_extract_tileset source_path ''out'' small_world))) =
     [''out/grass.png'', ''out/dirt.png'', ''out/water.png'', ''out/stone.png'']"
  using small_grid_out_of_bounds et_extract_result [OF small_world_source, of TILE_SETS "''out''"]
    et_extract_saved [OF small_world_source, of TILE_SETS "''out''"]
  by (simp add: et_extract_tileset_def) (simp add: TILE_SETS_def small_world_def path_join_def)

text \<open>
  C2, amended. The extraction makes no bounds check and signals no out-of-bounds error:
  for every sheet and every grid, also one in which some computed region exceeds the
  sheet, extract\_tiles.py returns normally and writes one strip for every grid tile set;
  extract\_tiles\_correct.py returns normally and writes 16 files for every tile set when
  each tile set collects a tile; and each crop is a whole tile of 16 by 16 pixels, in which
  the pixels outside the sheet are \<open>(0, 0, 0, 0)\<close>.
\<close>

theorem no_bounds_check:
  assumes "files w src = Some img"
  shows "fst (et_extract_tileset_with sets src out w) = Inr () \<and>
         map fst (saved (snd (et_extract_tileset_with sets src out w))) =
           map fst (saved w) @ map (\<lambda>(name, cfg). path_join out (name @ ''.png''))
                                 (filter (\<lambda>(name, cfg). layout cfg = ''grid'') sets) \<and>
         (list_all (\<lambda>(name, c). fst (collect_tiles img c w) \<noteq> []) sets' \<longrightarrow>
            fst (etc_extract_tileset_with sets' src out w) = Inr () \<and>
            length (saved (snd (etc_extract_tileset_with sets' src out w))) =
              length (saved w) + 16 * length sets') \<and>
         has_size (crop img (x, y, x + TILE_SIZE, y + TILE_SIZE)) 16 16 \<and>
         (\<forall>i < 16. \<forall>j < 16.
            crop img (x, y, x + TILE_SIZE, y + TILE_SIZE) ! j ! i =
              (if inside img (x + int i) (y + int j) then img ! nat (y + int j) ! nat (x + int i)
               else transparent))"
proof (intro conjI impI allI)
  show "fst (et_extract_tileset_with sets src out w) = Inr ()"
    using assms by (rule et_extract_result)
  show "map fst (saved (snd (et_extract_tileset_with sets src out w))) =
           map fst (saved w) @ map (\<lambda>(name, cfg). path_join out (name @ ''.png''))
                                 (filter (\<lambda>(name, cfg). layout cfg = ''grid'') sets)"
    by (simp add: et_extract_saved [OF assms] comp_def split_def)
  show "has_size (crop img (x, y, x + TILE_SIZE, y + TILE_SIZE)) 16 16"
    by (rule has_size_crop_tile)
next
  assume a: "list_all (\<lambda>(name, c). fst (collect_tiles img c w) \<noteq> []) sets'"
  then show "fst (etc_extract_tileset_with sets' src out w) = Inr ()"
    by (simp add: etc_extract_result [OF assms, of sets' out w])
  from a show "length (saved (snd (etc_extract_tileset_with sets' src out w))) =
              length (saved w) + 16 * length sets'"
    by (rule etc_extract_all_saved [OF assms])
next
  fix i j :: nat
  assume "i < 16" and "j < 16"
  then show "crop img (x, y, x + TILE_SIZE, y + TILE_SIZE) ! j ! i =
              (if inside img (x + int i) (y + int j) then img ! nat (y + int j) ! nat (x + int i)
               else transparent)"
    by (simp add: crop_tile_nth pixel_or_zero_def)
qed

theorem no_bounds_check_witness:
  "files small_world source_path = Some small_sheet \<and>
   \<not> grid_in_bounds small_sheet (289, 425) \<and>
   fst (et_extract_tileset_with TILE_SETS source_path ''out'' small_world) = Inr () \<and>
   list_all (\<lambda>(name, c). fst (collect_tiles small_sheet c small_world) \<noteq> []) [(''one'', one_cell)] \<and>
   fst (etc_extract_tileset_with [(''one'', one_cell)] source_path ''out'' small_world) = Inr () \<and>
   length (saved (snd (etc_extract_tileset_with [(''one'', one_cell)] source_path ''out'' small_world))) = 16 \<and>
   crop small_sheet (0, 0, 0 + TILE_SIZE, 0 + TILE_SIZE) ! 1 ! 1 = (10, 11, 12, 0) \<and>
   crop small_sheet (0, 0, 0 + TILE_SIZE, 0 + TILE_SIZE) ! 2 ! 1 = (0, 0, 0, 0)"
proof -
  have ne: "list_all (\<lambda>(name, c). fst (collect_tiles small_sheet c small_world) \<noteq> []) [(''one'', one_cell)]"
    using one_cell_collected [of small_sheet small_world] by auto
  have s: "saved small_world = []"
    by (simp add: small_world_def)
  have i1: "inside small_sheet 1 1" and i2: "\<not> inside small_sheet 1 2"
    by (simp_all add: inside_def small_sheet_def)
  from no_bounds_check [OF small_world_source, of TILE_SETS "''out''" "[(''one'', one_cell)]" 0 0]
  have "fst (et_extract_tileset_with TILE_SETS source_path ''out'' small_world) = Inr ()"
    and "fst (etc_extract_tileset_with [(''one'', one_cell)] source_path ''out'' small_world) = Inr ()"
    and "length (saved (snd (etc_extract_tileset_with [(''one'', one_cell)] source_path ''out'' small_world))) = 16"
    and "crop small_sheet (0, 0, 0 + TILE_SIZE, 0 + TILE_SIZE) ! 1 ! 1 = small_sheet ! 1 ! 1"
    and "crop small_sheet (0, 0, 0 + TILE_SIZE, 0 + TILE_SIZE) ! 2 ! 1 = transparent"
    using ne s i1 i2 by simp_all
  then show ?thesis
    using small_world_source small_grid_out_of_bounds ne
    by (simp add: small_sheet_def transparent_def)
qed

text \<open>
  C8, as stated: with no source file, both extraction scripts end with exit status 0.
\<close>

theorem missing_source_counterexample:
  "files empty_world source_path = None \<and>
   exit_status (fst (et_main empty_world)) = 0 \<and>
   exit_status (fst (etc_main empty_world)) = 0"
  by (simp add: empty_world_def et_main_def etc_main_def etc_extract_tileset_def
      etc_extract_tileset_with_def exit_status_def Let_def)

text \<open>
  C8, amended. When the source image file is missing, each extraction script reports it
  to the user and runs to its end without an exception and without saving a file; its exit
  status is 0.
\<close>

theorem missing_source_reported:
  assumes "files w source_path = None"
  shows "et_main w = (Inr (), w\<lparr>stdout := stdout w @ [Banner, SourceNotFound source_path, Instructions]\<rparr>) \<and>
         etc_main w = (Inr (), w\<lparr>stdout := stdout w @ [SourceNotFound source_path]\<rparr>) \<and>
         exit_status (fst (et_main w)) = 0 \<and>
         exit_status (fst (etc_main w)) = 0 \<and>
         saved (snd (et_main w)) = saved w \<and>
         saved (snd (etc_main w)) = saved w"
  using assms
  by (simp add: et_main_def etc_main_def etc_extract_tileset_def etc_extract_tileset_with_def
      exit_status_def Let_def say_def)

theorem missing_source_reported_witness:
  "files empty_world source_path = None \<and>
   et_main empty_world =
     (Inr (), \<lparr>files = Map.empty, saved = [], stdout = [Banner, SourceNotFound source_path, Instructions]\<rparr>) \<and>
   etc_main empty_world =
     (Inr (), \<lparr>files = Map.empty, saved = [], stdout = [SourceNotFound source_path]\<rparr>)"
proof -
  have n: "files empty_world source_path = None"
    by (simp add: empty_world_def)
  from missing_source_reported [OF n] n show ?thesis
    by (simp add: empty_world_def)
qed

text \<open>
  C1. A tile at grid position \<open>(col, row)\<close> is cropped at the pixel offset
  \<open>origin_pixel + (col, row) * 17\<close>. In extract\_tiles.py, the loop body at index
  \<open>row * 4 + col\<close> of a tile set that starts at \<open>(sx, sy)\<close> crops the box of size 16 at
  \<open>(sx + col * 17, sy + row * 17)\<close> and pastes it at \<open>x = idx * 16\<close>; the slot of that
  index in the finished row image, which is the strip saved for the tile set, holds this
  crop. In extract\_tiles\_correct.py the collected tiles are, in row-major order, the crops
  of the cells that are not excluded, each at \<open>start * 17 + (col, row) * 17\<close>. For the origin
  \<open>(0, 0)\<close>, the tile at column 2 of row 1 is read from \<open>(34, 17)\<close> by both scripts.
\<close>

theorem tile_read_offset:
  "(col < 4 \<and> row < 4 \<longrightarrow>
      grid_step img (sx, sy) (row * 4 + col) row_image =
        paste row_image
          (crop img (sx + int col * 17, sy + int row * 17, sx + int col * 17 + 16, sy + int row * 17 + 16))
          (int (row * 4 + col) * 16, 0) \<and>
      crop (build_row img (sx, sy))
        (int (row * 4 + col) * TILE_SIZE, 0, int (row * 4 + col) * TILE_SIZE + TILE_SIZE, 0 + TILE_SIZE) =
        crop img (sx + int col * 17, sy + int row * 17, sx + int col * 17 + 16, sy + int row * 17 + 16)) \<and>
   saved (et_tileset img out (name, cfg) w) =
     saved w @ (if layout cfg = ''grid''
                then [(path_join out (name @ ''.png''), build_row img (coords cfg))] else []) \<and>
   fst (collect_tiles img c w) =
     map (\<lambda>(row, col). crop img (fst (start c) * 17 + int col * 17, snd (start c) * 17 + int row * 17,
                                   fst (start c) * 17 + int col * 17 + 16,
                                   snd (start c) * 17 + int row * 17 + 16))
       (filter (\<lambda>(row, col). (fst (start c) + int col, snd (start c) + int row) \<notin> set (exclude c))
          (List.product [0..<nat (snd (grid c))] [0..<nat (fst (grid c))])) \<and>
   grid_step img (0, 0) (1 * 4 + 2) row_image =
     paste row_image (crop img (34, 17, 34 + 16, 17 + 16)) (6 * 16, 0) \<and>
   fst (collect_tiles img grid_4x4 w) ! (1 * 4 + 2) = crop img (34, 17, 34 + 16, 17 + 16)"
proof (intro conjI impI)
  assume a: "col < 4 \<and> row < 4"
  then show "grid_step img (sx, sy) (row * 4 + col) row_image =
        paste row_image
          (crop img (sx + int col * 17, sy + int row * 17, sx + int col * 17 + 16, sy + int row * 17 + 16))
          (int (row * 4 + col) * 16, 0)"
    by (simp only: grid_step_cell)
  from a show "crop (build_row img (sx, sy))
        (int (row * 4 + col) * TILE_SIZE, 0, int (row * 4 + col) * TILE_SIZE + TILE_SIZE, 0 + TILE_SIZE) =
        crop img (sx + int col * 17, sy + int row * 17, sx + int col * 17 + 16, sy + int row * 17 + 16)"
    by (simp only: build_row_cell)
next
  show "saved (et_tileset img out (name, cfg) w) =
     saved w @ (if layout cfg = ''grid''
                then [(path_join out (name @ ''.png''), build_row img (coords cfg))] else [])"
    by (rule saved_et_tileset)
  show "fst (collect_tiles img c w) =
     map (\<lambda>(row, col). crop img (fst (start c) * 17 + int col * 17, snd (start c) * 17 + int row * 17,
                                   fst (start c) * 17 + int col * 17 + 16,
                                   snd (start c) * 17 + int row * 17 + 16))
       (filter (\<lambda>(row, col). (fst (start c) + int col, snd (start c) + int row) \<notin> set (exclude c))
          (List.product [0..<nat (snd (grid c))] [0..<nat (fst (grid c))]))"
    by (simp add: fst_collect_tiles TILE_STEP_def TILE_SIZE_def MARGIN_def distrib_right)
  show "grid_step img (0, 0) (1 * 4 + 2) row_image =
     paste row_image (crop img (34, 17, 34 + 16, 17 + 16)) (6 * 16, 0)"
    using grid_step_cell [of 2 img 0 0 1 row_image] by simp
  show "fst (collect_tiles img grid_4x4 w) ! (1 * 4 + 2) = crop img (34, 17, 34 + 16, 17 + 16)"
    by (rule collected_4x4)
qed

theorem tile_read_offset_witness:
  "(2::nat) < 4 \<and> (1::nat) < 4 \<and>
   grid_step small_sheet (0, 0) (1 * 4 + 2) [] = paste [] (crop small_sheet (34, 17, 50, 33)) (96, 0) \<and>
   crop (build_row small_sheet (0, 0)) (96, 0, 112, 16) = crop small_sheet (34, 17, 50, 33)"
  using tile_read_offset [of 2 1 small_sheet 0 0 "[]"]
  by (simp add: TILE_SIZE_def)

text \<open>
  C7. Every tile produced by an extraction has the dimensions 16 by 16. In
  extract\_tiles.py the loop body pastes the crop of the box of its index, which is 16 by
  16; the finished row image is 256 by 16 and each of its sixteen slots holds that crop. In
  extract\_tiles\_correct.py every collected tile and every saved file is 16 by 16, and so
  is every file that split\_tiles.py saves (when the files saved before the call are of
  that size, so are those saved after).
\<close>

theorem every_tile_16_by_16:
  "grid_step img origin idx row_image =
     paste row_image (crop img (tile_box origin idx)) (int idx * TILE_SIZE, 0) \<and>
   has_size (crop img (tile_box origin idx)) 16 16 \<and>
   has_size (build_row img origin) (16 * 16) 16 \<and>
   (idx < 16 \<longrightarrow>
      crop (build_row img origin)
        (int idx * TILE_SIZE, 0, int idx * TILE_SIZE + TILE_SIZE, 0 + TILE_SIZE) =
        crop img (tile_box origin idx)) \<and>
   list_all (\<lambda>t. has_size t 16 16) (fst (collect_tiles img c w)) \<and>
   (list_all (\<lambda>(p, t). has_size t 16 16) (saved w) \<longrightarrow>
      list_all (\<lambda>(p, t). has_size t 16 16) (saved (snd (etc_extract_tileset_with sets src out w)))) \<and>
   (list_all (\<lambda>(p, t). has_size t 16 16) (saved w) \<longrightarrow>
      list_all (\<lambda>(p, t). has_size t 16 16) (saved (split_tileset name inp out w)))"
  using grid_step_tile [of img origin idx row_image] has_size_tile_box [of img origin idx]
    has_size_build_row [of img origin] crop_build_row [of idx img origin]
    has_size_collected [of img c w]
    etc_extract_saved_sizes [of w sets src out] split_saved_sizes [of w name inp out]
  by simp

theorem every_tile_16_by_16_witness:
  "(0::nat) < 16 \<and>
   list_all (\<lambda>(p, t). has_size t 16 16) (saved small_world) \<and>
   list_all (\<lambda>(p, t). has_size t 16 16) (saved strip_world) \<and>
   has_size (crop small_sheet (tile_box (289, 425) 0)) 16 16 \<and>
   crop (build_row small_sheet (289, 425)) (int 0 * TILE_SIZE, 0, int 0 * TILE_SIZE + TILE_SIZE, 0 + TILE_SIZE) =
     crop small_sheet (tile_box (289, 425) 0) \<and>
   list_all (\<lambda>t. has_size t 16 16) (fst (collect_tiles small_sheet water_def small_world)) \<and>
   length (saved (snd (etc_extract_tileset_with TILESETS source_path output_path small_world))) = 64 \<and>
   list_all (\<lambda>(p, t). has_size t 16 16)
     (saved (snd (etc_extract_tileset_with TILESETS source_path output_path small_world))) \<and>
   length (saved (split_tileset ''water'' output_path output_path strip_world)) = 16 \<and>
   list_all (\<lambda>(p, t). has_size t 16 16)
     (saved (split_tileset ''water'' output_path output_path strip_world))"
proof -
  have s: "list_all (\<lambda>(p, t). has_size t 16 16) (saved small_world)"
    and s': "list_all (\<lambda>(p, t). has_size t 16 16) (saved strip_world)"
    by (simp_all add: small_world_def strip_world_def)
  have n: "length (saved (snd (etc_extract_tileset_with TILESETS source_path output_path small_world))) = 64"
    using etc_extract_all_saved [OF small_world_source shipped_tilesets_collect, of output_path]
    by (simp add: small_world_def TILESETS_def)
  from every_tile_16_by_16 [of small_sheet "(289, 425)" 0 "[]" water_def small_world TILESETS
      source_path output_path "''water''" output_path]
    every_tile_16_by_16 [of small_sheet "(289, 425)" 0 "[]" water_def strip_world TILESETS
      source_path output_path "''water''" output_path]
    s s' n strip_world_saved
  show ?thesis by simp
qed

text \<open>
  C5. Writing the sixteen tiles of a tile set as a strip and splitting the strip again
  gives back the tiles. When extract\_tiles.py has written the strip of a grid tile set
  (no other tile set of the table writing to the same path), split\_tiles.py, run on the
  directory of the strips, saves sixteen files of which the one of index \<open>v\<close> is the tile
  that was cropped from the sheet for index \<open>v\<close>. For every sequence of sixteen tiles of
  16 by 16 pixels, pasting tile \<open>idx\<close> at \<open>x = idx * 16\<close> into a new row image and cropping
  the row image at \<open>x = v * 16\<close> for each \<open>v\<close> yields the sequence itself.
\<close>

theorem strip_round_trip:
  "(files w src = Some img \<and> (name, cfg) \<in> set sets \<and> layout cfg = ''grid'' \<and>
    distinct (map (\<lambda>(n, c). path_join out (n @ ''.png'')) sets) \<longrightarrow>
      saved (split_tileset name out out2 (snd (et_extract_tileset_with sets src out w))) =
        saved (snd (et_extract_tileset_with sets src out w)) @
        map (\<lambda>v. (tile_path (path_join out2 name) name v, crop img (tile_box (coords cfg) v))) [0..<16]) \<and>
   (length tiles = 16 \<and> list_all (\<lambda>t. has_size t 16 16) tiles \<longrightarrow>
      map (\<lambda>v. crop (fold (\<lambda>idx row_image. paste row_image (tiles ! idx) (int idx * TILE_SIZE, 0)) [0..<16]
                        (new_image (nat (16 * TILE_SIZE), nat TILE_SIZE) transparent))
                 (int v * TILE_SIZE, 0, int v * TILE_SIZE + TILE_SIZE, 0 + TILE_SIZE)) [0..<16] = tiles)"
  using split_after_extract [of w src img name cfg sets out out2] paste_tiles_round_trip_all [of tiles]
  by blast

theorem strip_round_trip_witness:
  "files small_world source_path = Some small_sheet \<and>
   (''corner'', \<lparr>coords = (0, 0), layout = ''grid''\<rparr>) \<in> set corner_sets \<and>
   distinct (map (\<lambda>(n, c). path_join ''out'' (n @ ''.png'')) corner_sets) \<and>
   length (map (\<lambda>v. crop small_sheet (tile_box (0, 0) v)) [0..<16]) = 16 \<and>
   list_all (\<lambda>t. has_size t 16 16) (map (\<lambda>v. crop small_sheet (tile_box (0, 0) v)) [0..<16]) \<and>
   saved (split_tileset ''corner'' ''out'' ''tiles''
            (snd (et_extract_tileset_with corner_sets source_path ''out'' small_world))) =
     [(''out/corner.png'', build_row small_sheet (0, 0))] @
     map (\<lambda>v. (tile_path ''tiles/corner'' ''corner'' v, crop small_sheet (tile_box (0, 0) v))) [0..<16] \<and>
   crop small_sheet (tile_box (0, 0) 0) ! 0 ! 0 = (1, 2, 3, 255)"
proof -
  have m: "(''corner'', \<lparr>coords = (0, 0), layout = ''grid''\<rparr>) \<in> set corner_sets"
    and d: "distinct (map (\<lambda>(n, c). path_join ''out'' (n @ ''.png'')) corner_sets)"
    by (simp_all add: corner_sets_def)
  have l: "length (map (\<lambda>v. crop small_sheet (tile_box (0, 0) v)) [0..<16]) = 16"
    by simp
  have a: "list_all (\<lambda>t. has_size t 16 16) (map (\<lambda>v. crop small_sheet (tile_box (0, 0) v)) [0..<16])"
    by (simp add: list_all_iff has_size_tile_box)
  have s: "saved (snd (et_extract_tileset_with corner_sets source_path ''out'' small_world)) =
             [(''out/corner.png'', build_row small_sheet (0, 0))]"
    by (simp add: et_extract_saved [OF small_world_source]) (simp add: corner_sets_def small_world_def path_join_def)
  have p: "path_join ''tiles'' ''corner'' = ''tiles/corner''"
    by (simp add: path_join_def)
  from strip_round_trip [of small_world source_path small_sheet "''corner''"
      "\<lparr>coords = (0, 0), layout = ''grid''\<rparr>" corner_sets "''out''" "''tiles''"
      "map (\<lambda>v. crop small_sheet (tile_box (0, 0) v)) [0..<16]"]
    small_world_source m d l a
  have "saved (split_tileset ''corner'' ''out'' ''tiles''
            (snd (et_extract_tileset_with corner_sets source_path ''out'' small_world))) =
     saved (snd (et_extract_tileset_with corner_sets source_path ''out'' small_world)) @
     map (\<lambda>v. (tile_path (path_join ''tiles'' ''corner'') ''corner'' v, crop small_sheet (tile_box (0, 0) v))) [0..<16]"
    by simp
  then show ?thesis
    using small_world_source m d l a corner_pixel
    by (simp only: s p simp_thms)
qed




end
